theory Spec2Isabelle
  imports Main "HOL-Library.Sublist"
begin

section \<open>Python values\<close>

text \<open>
  The backend is one Python module, \<^verbatim>\<open>src/backend/main.py\<close>.  Its functions are
  embedded as HOL functions.  An exception that leaves a function is a value
  \<open>Inl e\<close> of the result; a normal return is \<open>Inr v\<close>.

  A Python \<^verbatim>\<open>str\<close> is a \<^typ>\<open>string\<close>: a list of characters, each standing for one
  code point in the range U+0000 .. U+00FF, so that \<^const>\<open>length\<close> is Python's
  \<^verbatim>\<open>len\<close>.
\<close>

datatype py_error = AttributeError | IndexError | TypeError | ValueError

definition py_bind :: "py_error + 'a \<Rightarrow> ('a \<Rightarrow> py_error + 'b) \<Rightarrow> py_error + 'b" where
  "py_bind r f = (case r of Inl e \<Rightarrow> Inl e | Inr v \<Rightarrow> f v)"

definition code_point :: "char \<Rightarrow> nat" where
  "code_point c = of_char c"

text \<open>
  \<^verbatim>\<open>str.isspace\<close> on one character; the same set is the class \<^verbatim>\<open>\s\<close> of \<^verbatim>\<open>re\<close>
  on \<^verbatim>\<open>str\<close> patterns and what \<^verbatim>\<open>str.strip()\<close> and \<^verbatim>\<open>str.split()\<close> remove:
  TAB, LF, VT, FF, CR, FS, GS, RS, US, SPACE, NEL (U+0085) and NBSP (U+00A0).
\<close>

definition is_space :: "char \<Rightarrow> bool" where
  "is_space c =
     (let n = code_point c
      in (9 \<le> n \<and> n \<le> 13) \<or> (28 \<le> n \<and> n \<le> 32) \<or> n = 133 \<or> n = 160)"

text \<open>The line boundaries of \<^verbatim>\<open>str.splitlines\<close>: LF, VT, FF, CR, FS, GS, RS, NEL.\<close>

definition is_linebreak :: "char \<Rightarrow> bool" where
  "is_linebreak c =
     (let n = code_point c
      in (10 \<le> n \<and> n \<le> 13) \<or> (28 \<le> n \<and> n \<le> 30) \<or> n = 133)"

abbreviation LF :: char where "LF \<equiv> CHR 0x0A"
abbreviation CR :: char where "CR \<equiv> CHR 0x0D"

text \<open>\<^verbatim>\<open>s.strip()\<close>\<close>

definition py_strip :: "string \<Rightarrow> string" where
  "py_strip s = rev (dropWhile is_space (rev (dropWhile is_space s)))"

text \<open>\<^verbatim>\<open>sep.join(xs)\<close>\<close>

fun py_join :: "string \<Rightarrow> string list \<Rightarrow> string" where
  "py_join sep [] = []"
| "py_join sep [x] = x"
| "py_join sep (x # y # ys) = x @ sep @ py_join sep (y # ys)"

text \<open>
  \<^verbatim>\<open>s.splitlines()\<close>: the lines of \<open>s\<close> without their line breaks; CR LF is one
  break; a break at the very end opens no further line, and the empty string has
  no line at all.  The first argument is the line being read.
\<close>

fun splitlines_from :: "string \<Rightarrow> string \<Rightarrow> string list" where
  "splitlines_from cur [] = (if cur = [] then [] else [cur])"
| "splitlines_from cur [c] =
     (if is_linebreak c then [cur] else [cur @ [c]])"
| "splitlines_from cur (c # d # cs) =
     (if c = CR \<and> d = LF then cur # splitlines_from [] cs
      else if is_linebreak c then cur # splitlines_from [] (d # cs)
      else splitlines_from (cur @ [c]) (d # cs))"

definition splitlines :: "string \<Rightarrow> string list" where
  "splitlines s = splitlines_from [] s"

text \<open>\<^verbatim>\<open>xs[0]\<close>, which raises \<^verbatim>\<open>IndexError\<close> on the empty list.\<close>

definition py_first :: "'a list \<Rightarrow> py_error + 'a" where
  "py_first xs = (case xs of [] \<Rightarrow> Inl IndexError | x # _ \<Rightarrow> Inr x)"

text \<open>\<^verbatim>\<open>sub in s\<close> on strings.\<close>

fun py_in :: "string \<Rightarrow> string \<Rightarrow> bool" where
  "py_in sub [] = (sub = [])"
| "py_in sub (c # cs) = (prefix sub (c # cs) \<or> py_in sub cs)"

text \<open>\<^verbatim>\<open>str(n)\<close> for a natural number.\<close>

definition digit_char :: "nat \<Rightarrow> char" where
  "digit_char d = char_of (48 + d)"

function py_str_nat :: "nat \<Rightarrow> string" where
  "py_str_nat n =
     (if n < 10 then [digit_char n] else py_str_nat (n div 10) @ [digit_char (n mod 10)])"
  by pat_completeness auto
termination
  by (relation "measure id") auto

declare py_str_nat.simps [simp del]

section \<open>The outside world\<close>

text \<open>
  Every outbound call goes through \<^verbatim>\<open>requests\<close>.  The remote services are not
  part of the program, so their replies are a parameter of the model: a \<open>world\<close>
  answers each request, and may take into account everything that was requested
  before (the log of calls made so far, oldest first).  A reply is either a
  \<^verbatim>\<open>requests.exceptions.RequestException\<close> (connection failure, timeout, a bad
  status turned into an exception by \<^verbatim>\<open>raise_for_status\<close>, a body that
  \<^verbatim>\<open>response.json()\<close> cannot decode), given by its message \<^verbatim>\<open>str(e)\<close>, or the body.

  The parsers of the libraries are parameters too: \<open>ET_fromstring\<close> is
  \<^verbatim>\<open>xml.etree.ElementTree.fromstring\<close> (\<open>None\<close> when it raises \<^verbatim>\<open>ParseError\<close>), and
  \<open>article_paragraphs\<close> is what BeautifulSoup finds in a page: \<open>None\<close> when no
  element carries \<^verbatim>\<open>aria-label="Article content"\<close>, else the
  \<^verbatim>\<open>get_text(strip=True)\<close> of each \<^verbatim>\<open><p>\<close> inside the first such element.
  \<open>set_iteration\<close> is the order in which Python iterates over a set holding the
  given elements.
\<close>

datatype json =
    JNull
  | JBool bool
  | JNum int
  | JStr string
  | JArr "json list"
  | JObj "(string \<times> json) list"

datatype element =
  Element (tag: string) (attrib: "(string \<times> string) list")
          (elem_text: "string option") (children: "element list")

datatype 'a reply = RequestException string | Ok 'a

datatype event =
    ESearch string string string
  | EFetch string
  | PmcGet string

record world =
  esearch_reply :: "event list \<Rightarrow> string \<Rightarrow> string \<Rightarrow> string \<Rightarrow> json reply"
  efetch_reply :: "event list \<Rightarrow> string \<Rightarrow> string reply"
  pmc_reply :: "event list \<Rightarrow> string \<Rightarrow> string reply"
  ET_fromstring :: "string \<Rightarrow> element option"
  article_paragraphs :: "string \<Rightarrow> string list option"
  set_iteration :: "json list \<Rightarrow> json list"

section \<open>Full-text scraper\<close>

definition PMC_ARTICLE_URL :: string where
  "PMC_ARTICLE_URL = ''https://www.ncbi.nlm.nih.gov/pmc/articles/''"

text \<open>
  \<^verbatim>\<open>scrape_full_text(pmcid)\<close>.  The handler of \<^verbatim>\<open>RequestException\<close> evaluates
  \<^verbatim>\<open>str(e).splitlines()[0]\<close>; an exception raised there leaves the function.
\<close>

definition scrape_full_text ::
  "world \<Rightarrow> event list \<Rightarrow> string \<Rightarrow> (py_error + string) \<times> event list" where
  "scrape_full_text w log pmcid =
     (let url = PMC_ARTICLE_URL @ pmcid @ ''/'' in
      (case pmc_reply w log url of
         Ok content \<Rightarrow>
           (case article_paragraphs w content of
              None \<Rightarrow> Inr ''FULL_TEXT_CONTAINER_NOT_FOUND''
            | Some ps \<Rightarrow>
                (let full_text = py_join '' '' ps
                 in Inr (if full_text \<noteq> [] then full_text else ''FULL_TEXT_EMPTY'')))
       | RequestException msg \<Rightarrow>
           py_bind (py_first (splitlines msg)) (\<lambda>line. Inr (''SCRAPING_FAILED: '' @ line)),
       log @ [PmcGet url]))"

section \<open>Articles and the gap analyzer\<close>

record article =
  pmid :: string
  title :: string
  first_author :: string
  authors :: string
  year :: string
  journal :: "string option"
  abstract :: string
  pmcid :: "string option"
  full_text :: "string option"

definition prompt_header :: string where
  "prompt_header =
     ''You are a research assistant. Synthesize research gaps from the provided articles into a concise list. For each gap, cite the source in parentheses (First Author, Year).''
     @ [LF, LF] @ ''Example:'' @ [LF]
     @ ''- The efficacy of treatment Y has not been tested in pediatric populations (Jones, 2021).''
     @ [LF, LF] @ ''--- START OF ARTICLES ---'' @ [LF]"

text \<open>
  \<^verbatim>\<open>article.full_text if article.full_text and 'NOT_ATTEMPTED' not in article.full_text
  else article.abstract\<close>
\<close>

definition text_content :: "article \<Rightarrow> string" where
  "text_content a =
     (case full_text a of
        None \<Rightarrow> abstract a
      | Some ft \<Rightarrow> if ft \<noteq> [] \<and> \<not> py_in ''NOT_ATTEMPTED'' ft then ft else abstract a)"

definition citation :: "article \<Rightarrow> string" where
  "citation a = ''('' @ first_author a @ '', '' @ year a @ '')''"

definition block_label :: "nat \<Rightarrow> article \<Rightarrow> string" where
  "block_label idx a = ''ARTICLE '' @ py_str_nat (idx + 1) @ '' '' @ citation a @ '':'' @ [LF]"

definition article_block :: "nat \<Rightarrow> article \<Rightarrow> string" where
  "article_block idx a = block_label idx a @ take 3000 (text_content a) @ ''...'' @ [LF]"

text \<open>The loop over \<^verbatim>\<open>enumerate(request.articles)\<close>, appending to \<^verbatim>\<open>article_texts\<close>.\<close>

fun article_texts_loop :: "nat \<Rightarrow> article list \<Rightarrow> string list \<Rightarrow> string list" where
  "article_texts_loop idx [] article_texts = article_texts"
| "article_texts_loop idx (a # as) article_texts =
     article_texts_loop (idx + 1) as (article_texts @ [article_block idx a])"

definition full_prompt :: "article list \<Rightarrow> string" where
  "full_prompt articles =
     take 30000 (prompt_header @ py_join [LF] (article_texts_loop 0 articles []))"

section \<open>XML record parser\<close>

subsection \<open>String helpers\<close>

text \<open>\<^verbatim>\<open>re.sub(r'\s+', ' ', s)\<close>: every maximal run of whitespace becomes one space.\<close>

function re_sub_ws :: "string \<Rightarrow> string" where
  "re_sub_ws [] = []"
| "re_sub_ws (c # cs) =
     (if is_space c then CHR '' '' # re_sub_ws (dropWhile is_space cs) else c # re_sub_ws cs)"
  by pat_completeness auto
termination
  by (relation "measure length") (auto simp: length_dropWhile_le less_Suc_eq_le)

text \<open>\<^verbatim>\<open>s.split()\<close>: the maximal runs of non-whitespace characters.\<close>

function py_split :: "string \<Rightarrow> string list" where
  "py_split s =
     (case dropWhile is_space s of
        [] \<Rightarrow> []
      | c # cs \<Rightarrow>
          (c # takeWhile (\<lambda>x. \<not> is_space x) cs) # py_split (dropWhile (\<lambda>x. \<not> is_space x) cs))"
  by pat_completeness auto
termination
proof (relation "measure length", goal_cases)
  case 1
  show ?case by simp
next
  case (2 s c cs)
  have "length (dropWhile (\<lambda>x. \<not> is_space x) cs) \<le> length cs"
    by (rule length_dropWhile_le)
  moreover have "length (dropWhile is_space s) \<le> length s"
    by (rule length_dropWhile_le)
  ultimately show ?case using 2 by simp
qed

declare py_split.simps [simp del]

text \<open>\<^verbatim>\<open>s or d\<close> on strings: the empty string is false.\<close>

definition py_or :: "string \<Rightarrow> string \<Rightarrow> string" where
  "py_or s d = (if s \<noteq> [] then s else d)"

subsection \<open>ElementTree\<close>

text \<open>
  An \<^verbatim>\<open>xml.etree.ElementTree.Element\<close> is its tag, its attributes, its text
  (\<open>None\<close> when the element has no character data before its first child) and its
  children.  The paths the program uses are written as ElementPath compiles them,
  one step per selector: \<^verbatim>\<open>.\<close> is \<open>Self\<close>, \<^verbatim>\<open>/tag\<close> or a bare \<^verbatim>\<open>tag\<close> is
  \<open>Child tag\<close>, \<^verbatim>\<open>//tag\<close> is \<open>Descendant tag\<close> and \<^verbatim>\<open>[@key='value']\<close> is
  \<open>AttrEq key value\<close>.
\<close>

datatype step = Self | Child string | Descendant string | AttrEq string string

text \<open>\<^verbatim>\<open>Element.iter()\<close>: the element and all its descendants, in document order.\<close>

fun ET_iter :: "element \<Rightarrow> element list" where
  "ET_iter (Element t a x cs) = Element t a x cs # concat (map ET_iter cs)"

text \<open>
  One selector applied to the current result list.  The descendant selector yields
  every element of \<^verbatim>\<open>elem.iter(tag)\<close> that is not \<^verbatim>\<open>elem\<close> itself (an identity
  test): the descendants proper.
\<close>

fun select :: "step \<Rightarrow> element list \<Rightarrow> element list" where
  "select Self result = result"
| "select (Child t) result =
     concat (map (\<lambda>elem. filter (\<lambda>e. tag e = t) (children elem)) result)"
| "select (Descendant t) result =
     concat (map (\<lambda>elem. filter (\<lambda>e. tag e = t) (concat (map ET_iter (children elem)))) result)"
| "select (AttrEq key val) result =
     filter (\<lambda>elem. map_of (attrib elem) key = Some val) result"

definition ET_findall :: "element \<Rightarrow> step list \<Rightarrow> element list" where
  "ET_findall elem path = foldl (\<lambda>result s. select s result) [elem] path"

definition ET_find :: "element \<Rightarrow> step list \<Rightarrow> element option" where
  "ET_find elem path = (case ET_findall elem path of [] \<Rightarrow> None | e # _ \<Rightarrow> Some e)"

subsection \<open>parse_article_xml\<close>

definition get_text :: "element \<Rightarrow> step list \<Rightarrow> string" where
  "get_text element path =
     (case ET_find element path of
        None \<Rightarrow> []
      | Some node \<Rightarrow>
          (case elem_text node of
             None \<Rightarrow> []
           | Some t \<Rightarrow> re_sub_ws (py_strip t)))"

definition author_name :: "element \<Rightarrow> string" where
  "author_name a =
     py_strip (py_or (get_text a [Child ''ForeName'']) [] @ '' '' @ get_text a [Child ''LastName''])"

definition authors_list :: "element \<Rightarrow> string list" where
  "authors_list e =
     map author_name
       (filter (\<lambda>a. get_text a [Child ''LastName''] \<noteq> [])
         (ET_findall e [Self, Child ''MedlineCitation'', Child ''Article'',
                        Child ''AuthorList'', Child ''Author'']))"

definition first_author_display :: "string list \<Rightarrow> string" where
  "first_author_display al =
     (case al of
        [] \<Rightarrow> ''NO_AUTHOR''
      | a # _ \<Rightarrow>
          (let parts = py_split a in
           if length parts > 1 \<and> hd parts \<noteq> []
           then last parts @ '', '' @ [hd (hd parts)] @ ''.''
           else if length parts = 1 then hd parts else ''NO_AUTHOR''))"

definition abstract_of :: "element \<Rightarrow> string" where
  "abstract_of e =
     py_or
       (py_strip (py_join '' ''
          (concat (map (\<lambda>node. case elem_text node of
                                  None \<Rightarrow> []
                                | Some t \<Rightarrow> if t \<noteq> [] then [t] else [])
             (ET_findall e [Self, Child ''MedlineCitation'', Child ''Article'',
                            Child ''Abstract'', Child ''AbstractText''])))))
       ''NO_ABSTRACT''"

text \<open>
  The year: \<^verbatim>\<open>get_text\<close> is handed the result of \<^verbatim>\<open>find\<close> for the \<^verbatim>\<open>PubDate\<close>
  element as it is, so without a \<^verbatim>\<open>PubDate\<close> its \<^verbatim>\<open>element.find\<close> is an attribute
  access on \<^verbatim>\<open>None\<close>.
\<close>

definition year_of :: "element \<Rightarrow> py_error + string" where
  "year_of e =
     (case ET_find e [Self, Child ''MedlineCitation'', Child ''Article'', Child ''Journal'',
                      Child ''JournalIssue'', Child ''PubDate''] of
        None \<Rightarrow> Inl AttributeError
      | Some pub_date \<Rightarrow>
          Inr (py_or (get_text pub_date [Child ''Year''])
                (py_or (get_text e [Self, Descendant ''ArticleDate'', Child ''Year''])
                   ''NO_YEAR'')))"

definition pmcid_of :: "element \<Rightarrow> string option" where
  "pmcid_of e =
     (case ET_find e [Self, Child ''PubmedData'', Child ''ArticleIdList'',
                      Child ''ArticleId'', AttrEq ''IdType'' ''pmc''] of
        None \<Rightarrow> Some []
      | Some pmcid_node \<Rightarrow> elem_text pmcid_node)"

text \<open>The body of the \<^verbatim>\<open>try\<close> block.\<close>

definition parse_article_try :: "element \<Rightarrow> py_error + article option" where
  "parse_article_try e =
     (let pmid_text = get_text e [Self, Child ''MedlineCitation'', Child ''PMID''] in
      if pmid_text = [] then Inr None
      else
        (let title_text = py_or (get_text e [Self, Child ''MedlineCitation'', Child ''Article'',
                                             Child ''ArticleTitle'']) ''NO_TITLE'';
             al = authors_list e;
             authors_str = py_or (py_join '', '' al) ''NO_AUTHORS'';
             journal_text = py_or (get_text e [Self, Child ''MedlineCitation'', Child ''Article'',
                                               Child ''Journal'', Child ''Title'']) ''N/A''
         in py_bind (year_of e) (\<lambda>year_text.
              Inr (Some \<lparr>pmid = pmid_text, title = title_text,
                         first_author = first_author_display al, authors = authors_str,
                         year = year_text, journal = Some journal_text,
                         abstract = abstract_of e, pmcid = pmcid_of e,
                         full_text = Some ''NOT_ATTEMPTED''\<rparr>))))"

text \<open>\<^verbatim>\<open>parse_article_xml\<close>: the \<^verbatim>\<open>try\<close> block under \<^verbatim>\<open>except Exception: return None\<close>.\<close>

definition parse_article_xml :: "element \<Rightarrow> py_error + article option" where
  "parse_article_xml e =
     (case parse_article_try e of Inl err \<Rightarrow> Inr None | Inr r \<Rightarrow> Inr r)"

section \<open>Remote ID search and detail fetch\<close>

subsection \<open>Decoded JSON as Python objects\<close>

text \<open>
  \<^verbatim>\<open>response.json()\<close> gives \<^verbatim>\<open>None\<close>, a \<^verbatim>\<open>bool\<close>, a number (integers only in this
  model), a \<^verbatim>\<open>str\<close>, a \<^verbatim>\<open>list\<close> or a \<^verbatim>\<open>dict\<close> (its items, keys distinct).
  Only a \<^verbatim>\<open>dict\<close> has \<^verbatim>\<open>.get\<close>; \<^verbatim>\<open>None\<close>, booleans and numbers have no \<^verbatim>\<open>len\<close> and
  cannot be iterated; a \<^verbatim>\<open>list\<close> or a \<^verbatim>\<open>dict\<close> cannot be a member of a set.
\<close>

definition dict_get :: "json \<Rightarrow> string \<Rightarrow> json \<Rightarrow> py_error + json" where
  "dict_get d key dflt =
     (case d of
        JObj items \<Rightarrow> Inr (case map_of items key of None \<Rightarrow> dflt | Some v \<Rightarrow> v)
      | _ \<Rightarrow> Inl AttributeError)"

definition py_len :: "json \<Rightarrow> py_error + nat" where
  "py_len v =
     (case v of
        JStr s \<Rightarrow> Inr (length s)
      | JArr xs \<Rightarrow> Inr (length xs)
      | JObj items \<Rightarrow> Inr (length items)
      | _ \<Rightarrow> Inl TypeError)"

definition py_iter :: "json \<Rightarrow> py_error + json list" where
  "py_iter v =
     (case v of
        JStr s \<Rightarrow> Inr (map (\<lambda>c. JStr [c]) s)
      | JArr xs \<Rightarrow> Inr xs
      | JObj items \<Rightarrow> Inr (map (\<lambda>kv. JStr (fst kv)) items)
      | _ \<Rightarrow> Inl TypeError)"

definition hashable :: "json \<Rightarrow> bool" where
  "hashable v = (case v of JArr xs \<Rightarrow> False | JObj items \<Rightarrow> False | _ \<Rightarrow> True)"

text \<open>
  Two members of a set are the same member when they are equal in Python, and
  \<^verbatim>\<open>True == 1\<close>, \<^verbatim>\<open>False == 0\<close>: \<open>hash_key\<close> picks one representative.
\<close>

definition hash_key :: "json \<Rightarrow> json" where
  "hash_key v = (case v of JBool b \<Rightarrow> JNum (if b then 1 else 0) | _ \<Rightarrow> v)"

text \<open>
  A Python set is the list of its members, each once, in the order they were
  added; the order in which the program sees them is \<open>set_iteration\<close> of the
  world.  \<open>py_set_add\<close> is \<^verbatim>\<open>s.add(x)\<close>, \<open>py_set\<close> is \<^verbatim>\<open>set(xs)\<close>.
\<close>

definition py_set_add :: "json list \<Rightarrow> json \<Rightarrow> json list" where
  "py_set_add s x = (if hash_key x \<in> set (map hash_key s) then s else s @ [x])"

definition py_set :: "json list \<Rightarrow> py_error + json list" where
  "py_set xs = (if list_all hashable xs then Inr (foldl py_set_add [] xs) else Inl TypeError)"

subsection \<open>search_pmids\<close>

definition search_term :: "string \<Rightarrow> bool \<Rightarrow> bool \<Rightarrow> string" where
  "search_term q excl fft =
     ''('' @ q @ '')''
     @ (if excl then '' NOT preprint[pt]'' else [])
     @ (if fft then '' AND free full text[filter]'' else [])"

definition search_pmids ::
  "world \<Rightarrow> event list \<Rightarrow> string \<Rightarrow> string \<Rightarrow> string \<Rightarrow> bool \<Rightarrow> bool
     \<Rightarrow> (py_error + json list) \<times> event list" where
  "search_pmids w log q start stop excl fft =
     (let term = search_term q excl fft in
      (case esearch_reply w log term start stop of
         Ok data \<Rightarrow>
           py_bind (dict_get data ''esearchresult'' (JObj [])) (\<lambda>res.
           py_bind (dict_get res ''idlist'' (JArr [])) (\<lambda>pmids.
           py_bind (py_len pmids) (\<lambda>n.
           py_bind (py_iter pmids) py_set)))
       | RequestException msg \<Rightarrow> Inr [],
       log @ [ESearch term start stop]))"

subsection \<open>get_details_for_pmids\<close>

text \<open>\<^verbatim>\<open>','.join(pmids)\<close> raises \<^verbatim>\<open>TypeError\<close> unless every item is a \<^verbatim>\<open>str\<close>.\<close>

fun json_strs :: "json list \<Rightarrow> py_error + string list" where
  "json_strs [] = Inr []"
| "json_strs (JStr s # vs) = py_bind (json_strs vs) (\<lambda>ss. Inr (s # ss))"
| "json_strs (v # vs) = Inl TypeError"

definition get_details_for_pmids ::
  "world \<Rightarrow> event list \<Rightarrow> json list \<Rightarrow> (py_error + string option) \<times> event list" where
  "get_details_for_pmids w log pmids =
     (if pmids = [] then (Inr None, log)
      else
        (case json_strs pmids of
           Inl err \<Rightarrow> (Inl err, log)
         | Inr ss \<Rightarrow>
             (let ids = py_join '','' ss in
              (case efetch_reply w log ids of
                 Ok body \<Rightarrow> Inr (Some body)
               | RequestException msg \<Rightarrow> Inr None,
               log @ [EFetch ids]))))"

section \<open>Search endpoint\<close>

record search_request =
  query :: string
  start_date :: string
  stop_date :: string
  limit :: int
  chunk_size :: int
  exclude_preprints :: bool
  free_full_text_only :: bool
  fetch_full_text :: bool

text \<open>
  \<^verbatim>\<open>xs[lo:hi]\<close>: a negative bound counts from the end, and both bounds are clamped to
  the list.
\<close>

definition slice_index :: "nat \<Rightarrow> int \<Rightarrow> nat" where
  "slice_index n i = (if i < 0 then nat (max 0 (int n + i)) else min n (nat i))"

definition py_slice :: "'a list \<Rightarrow> int \<Rightarrow> int \<Rightarrow> 'a list" where
  "py_slice xs lo hi =
     (let l = slice_index (length xs) lo; h = slice_index (length xs) hi
      in take (h - l) (drop l xs))"

text \<open>
  \<^verbatim>\<open>range(start, stop, step)\<close>: \<^verbatim>\<open>ValueError\<close> for a zero step, else the values
  \<open>start + k * step\<close> on the way from \<open>start\<close> to \<open>stop\<close>, \<open>stop\<close> excluded.
\<close>

definition range_len :: "int \<Rightarrow> int \<Rightarrow> int \<Rightarrow> nat" where
  "range_len start stop step =
     (if 0 < step then (if start < stop then nat ((stop - start - 1) div step + 1) else 0)
      else (if stop < start then nat ((start - stop - 1) div (- step) + 1) else 0))"

definition py_range :: "int \<Rightarrow> int \<Rightarrow> int \<Rightarrow> py_error + int list" where
  "py_range start stop step =
     (if step = 0 then Inl ValueError
      else Inr (map (\<lambda>k. start + int k * step) [0..<range_len start stop step]))"

text \<open>The characters \<^verbatim>\<open>[\x00-\x08\x0B-\x0C\x0E-\x1F]\<close> removed before XML parsing.\<close>

definition is_xml_control :: "char \<Rightarrow> bool" where
  "is_xml_control c =
     (let n = code_point c in n \<le> 8 \<or> n = 11 \<or> n = 12 \<or> (14 \<le> n \<and> n \<le> 31))"

definition safe_xml :: "string \<Rightarrow> string" where
  "safe_xml xml_data = filter (\<lambda>c. \<not> is_xml_control c) xml_data"

text \<open>The truth value of an \<^verbatim>\<open>Optional[str]\<close>: \<^verbatim>\<open>None\<close> and \<^verbatim>\<open>''\<close> are false.\<close>

definition py_truthy :: "string option \<Rightarrow> bool" where
  "py_truthy v = (case v of None \<Rightarrow> False | Some s \<Rightarrow> s \<noteq> [])"

text \<open>
  The loop over \<^verbatim>\<open>root.findall('./PubmedArticle')\<close>: parse, scrape when asked and a
  PMCID is there, append.  An exception of the scraper is not an
  \<^verbatim>\<open>ET.ParseError\<close> and leaves the endpoint.
\<close>

fun record_loop ::
  "world \<Rightarrow> search_request \<Rightarrow> element list \<Rightarrow> article list \<Rightarrow> event list
     \<Rightarrow> (py_error + article list) \<times> event list" where
  "record_loop w req [] articles_data log = (Inr articles_data, log)"
| "record_loop w req (article_xml # rest) articles_data log =
     (case parse_article_xml article_xml of
        Inl err \<Rightarrow> (Inl err, log)
      | Inr None \<Rightarrow> record_loop w req rest articles_data log
      | Inr (Some details) \<Rightarrow>
          if fetch_full_text req \<and> py_truthy (pmcid details)
          then
            (case scrape_full_text w log (the (pmcid details)) of
               (Inl err, log') \<Rightarrow> (Inl err, log')
             | (Inr ft, log') \<Rightarrow>
                 record_loop w req rest (articles_data @ [details\<lparr>full_text := Some ft\<rparr>]) log')
          else record_loop w req rest (articles_data @ [details]) log)"

text \<open>
  The loop over \<^verbatim>\<open>range(0, len(pmid_list), request.chunk_size)\<close>; the second
  argument of \<open>chunk_loop\<close> holds the start indices still to come.
\<close>

fun chunk_loop ::
  "world \<Rightarrow> search_request \<Rightarrow> json list \<Rightarrow> int list \<Rightarrow> article list \<Rightarrow> event list
     \<Rightarrow> (py_error + article list) \<times> event list" where
  "chunk_loop w req pmid_list [] articles_data log = (Inr articles_data, log)"
| "chunk_loop w req pmid_list (i # rest) articles_data log =
     (case get_details_for_pmids w log (py_slice pmid_list i (i + chunk_size req)) of
        (Inl err, log') \<Rightarrow> (Inl err, log')
      | (Inr None, log') \<Rightarrow> chunk_loop w req pmid_list rest articles_data log'
      | (Inr (Some xml_data), log') \<Rightarrow>
          if xml_data = [] then chunk_loop w req pmid_list rest articles_data log'
          else
            (case ET_fromstring w (safe_xml xml_data) of
               None \<Rightarrow> chunk_loop w req pmid_list rest articles_data log'
             | Some root \<Rightarrow>
                 (case record_loop w req (ET_findall root [Self, Child ''PubmedArticle''])
                         articles_data log' of
                    (Inl err, log'') \<Rightarrow> (Inl err, log'')
                  | (Inr articles_data', log'') \<Rightarrow>
                      chunk_loop w req pmid_list rest articles_data' log'')))"

text \<open>\<^verbatim>\<open>pmid_list = list(all_pmids)[:request.limit]\<close>\<close>

definition pmid_list_of :: "world \<Rightarrow> search_request \<Rightarrow> json list \<Rightarrow> json list" where
  "pmid_list_of w req all_pmids = py_slice (set_iteration w all_pmids) 0 (limit req)"

definition search_endpoint ::
  "world \<Rightarrow> search_request \<Rightarrow> (py_error + article list) \<times> event list" where
  "search_endpoint w req =
     (case search_pmids w [] (query req) (start_date req) (stop_date req)
             (exclude_preprints req) (free_full_text_only req) of
        (Inl err, log) \<Rightarrow> (Inl err, log)
      | (Inr all_pmids, log) \<Rightarrow>
          (let pmid_list = pmid_list_of w req all_pmids in
           if pmid_list = [] then (Inr [], log)
           else
             (case py_range 0 (int (length pmid_list)) (chunk_size req) of
                Inl err \<Rightarrow> (Inl err, log)
              | Inr starts \<Rightarrow> chunk_loop w req pmid_list starts [] log)))"

section \<open>Properties and example inputs\<close>

subsection \<open>Whitespace normal form\<close>

text \<open>
  A string is whitespace-normalised when its only whitespace characters are single
  spaces, no two of them are adjacent, and none stands at either end.
\<close>

definition only_plain_spaces :: "string \<Rightarrow> bool" where
  "only_plain_spaces s = list_all (\<lambda>c. is_space c \<longrightarrow> c = CHR '' '') s"

fun single_spaced :: "string \<Rightarrow> bool" where
  "single_spaced (c # d # cs) = (\<not> (is_space c \<and> is_space d) \<and> single_spaced (d # cs))"
| "single_spaced cs = True"

definition trimmed :: "string \<Rightarrow> bool" where
  "trimmed s = (s = [] \<or> (\<not> is_space (hd s) \<and> \<not> is_space (last s)))"

definition ws_normalized :: "string \<Rightarrow> bool" where
  "ws_normalized s = (only_plain_spaces s \<and> single_spaced s \<and> trimmed s)"

text \<open>A word: not empty, no whitespace character.\<close>

definition is_word :: "string \<Rightarrow> bool" where
  "is_word p = (p \<noteq> [] \<and> list_all (\<lambda>c. \<not> is_space c) p)"

subsection \<open>Records without an identifier\<close>

text \<open>
  The identifier of a record is absent when the record has no
  \<^verbatim>\<open>MedlineCitation/PMID\<close> element, and empty when the first such element has no
  text or only whitespace.
\<close>

definition pmid_missing :: "element \<Rightarrow> bool" where
  "pmid_missing e =
     (case ET_find e [Self, Child ''MedlineCitation'', Child ''PMID''] of
        None \<Rightarrow> True
      | Some node \<Rightarrow>
          (case elem_text node of None \<Rightarrow> True | Some t \<Rightarrow> list_all is_space t))"

subsection \<open>Replies of the search service\<close>

text \<open>
  The members a reply of the search service lists under
  \<^verbatim>\<open>esearchresult.idlist\<close>, when the reply has a shape the program reads without
  an exception: the body is an object; \<^verbatim>\<open>esearchresult\<close>, when present, is an
  object; \<^verbatim>\<open>idlist\<close>, when present, is a list of strings, numbers, booleans or
  nulls, or a string (which lists its characters), or an object (which lists its
  keys).  A missing key lists nothing, and neither does a failed request.  For
  every other reply the result is \<open>None\<close>.
\<close>

definition listed_ids :: "json reply \<Rightarrow> json list option" where
  "listed_ids r =
     (case r of
        RequestException msg \<Rightarrow> Some []
      | Ok (JObj items) \<Rightarrow>
          (case map_of items ''esearchresult'' of
             None \<Rightarrow> Some []
           | Some (JObj res) \<Rightarrow>
               (case map_of res ''idlist'' of
                  None \<Rightarrow> Some []
                | Some (JArr xs) \<Rightarrow> if list_all hashable xs then Some xs else None
                | Some (JStr s) \<Rightarrow> Some (map (\<lambda>c. JStr [c]) s)
                | Some (JObj members) \<Rightarrow> Some (map (\<lambda>kv. JStr (fst kv)) members)
                | Some other \<Rightarrow> None)
           | Some other \<Rightarrow> None)
      | Ok other \<Rightarrow> None)"

subsection \<open>Fetch replies\<close>

text \<open>
  The fetch service receives the identifiers joined by commas.  The number of
  identifiers a request asks for is the number of its comma-separated parts
  (\<^verbatim>\<open>len(request.split(','))\<close>), which is the number of identifiers joined when
  none of them holds a comma.
\<close>

definition asked_for :: "string \<Rightarrow> nat" where
  "asked_for request = Suc (length (filter (\<lambda>c. c = CHR '','') request))"

definition comma_free :: "json \<Rightarrow> bool" where
  "comma_free v = (case v of JStr s \<Rightarrow> list_all (\<lambda>c. c \<noteq> CHR '','') s | _ \<Rightarrow> True)"

text \<open>
  A world in which a reply of the fetch service never holds more
  \<^verbatim>\<open>PubmedArticle\<close> records than identifiers were asked for.
\<close>

definition one_record_per_id :: "world \<Rightarrow> bool" where
  "one_record_per_id w =
     (\<forall>log request body root.
        efetch_reply w log request = Ok body \<and> ET_fromstring w (safe_xml body) = Some root
        \<longrightarrow> length (ET_findall root [Self, Child ''PubmedArticle'']) \<le> asked_for request)"

subsection \<open>Composing outcomes of the loops\<close>



subsection \<open>Example inputs\<close>

definition leaf :: "string \<Rightarrow> string \<Rightarrow> element" where
  "leaf t s = Element t [] (Some s) []"

definition node :: "string \<Rightarrow> element list \<Rightarrow> element" where
  "node t cs = Element t [] None cs"

text \<open>A complete record; its abstract and its PMC identifier carry extra whitespace.\<close>

definition example_article_xml :: element where
  "example_article_xml =
     node ''PubmedArticle''
       [node ''MedlineCitation''
          [leaf ''PMID'' '' 31 '',
           node ''Article''
             [leaf ''ArticleTitle'' (''Root   growth'' @ [LF] @ ''in  maize''),
              node ''Journal''
                [leaf ''Title'' ''Plant  J'',
                 node ''JournalIssue'' [node ''PubDate'' [leaf ''Year'' ''2020'']]],
              node ''Abstract'' [leaf ''AbstractText'' ''a  b''],
              node ''AuthorList''
                [node ''Author'' [leaf ''LastName'' ''Doe'', leaf ''ForeName'' ''Jane  Q'']]]],
        node ''PubmedData''
          [node ''ArticleIdList''
             [Element ''ArticleId'' [(''IdType'', ''pmc'')] (Some '' PMC7 '') []]]]"

definition example_article :: article where
  "example_article =
     \<lparr>pmid = ''31'', title = ''Root growth in maize'', first_author = ''Doe, J.'',
      authors = ''Jane Q Doe'', year = ''2020'', journal = Some ''Plant J'',
      abstract = ''a  b'', pmcid = Some '' PMC7 '', full_text = Some ''NOT_ATTEMPTED''\<rparr>"

text \<open>A record with title, journal and date but no \<^verbatim>\<open>PMID\<close>.\<close>

definition example_without_pmid :: element where
  "example_without_pmid =
     node ''PubmedArticle''
       [node ''MedlineCitation''
          [node ''Article''
             [leaf ''ArticleTitle'' ''Root growth'',
              node ''Journal''
                [leaf ''Title'' ''Plant J'',
                 node ''JournalIssue'' [node ''PubDate'' [leaf ''Year'' ''2020'']]]]]]"

text \<open>A record with a \<^verbatim>\<open>PMID\<close> but no \<^verbatim>\<open>PubDate\<close> element.\<close>

definition example_without_pubdate :: element where
  "example_without_pubdate =
     node ''PubmedArticle''
       [node ''MedlineCitation''
          [leaf ''PMID'' ''32'',
           node ''Article'' [leaf ''ArticleTitle'' ''Root growth'']]]"

text \<open>The smallest record the parser accepts, with the given \<^verbatim>\<open>PMID\<close>.\<close>

definition minimal_record :: "string \<Rightarrow> element" where
  "minimal_record p =
     node ''PubmedArticle''
       [node ''MedlineCitation''
          [leaf ''PMID'' p,
           node ''Article'' [node ''Journal'' [node ''JournalIssue'' [node ''PubDate'' []]]]]]"

definition minimal_article :: "string \<Rightarrow> article" where
  "minimal_article p =
     \<lparr>pmid = p, title = ''NO_TITLE'', first_author = ''NO_AUTHOR'', authors = ''NO_AUTHORS'',
      year = ''NO_YEAR'', journal = Some ''N/A'', abstract = ''NO_ABSTRACT'', pmcid = Some [],
      full_text = Some ''NOT_ATTEMPTED''\<rparr>"

text \<open>
  A world for the examples: the search lists the identifiers 1, 2, 2, 3; the fetch
  service echoes the identifiers it is asked for; the XML parser rejects the body
  \<^verbatim>\<open>2\<close> and reads any other body as a set holding one minimal record whose
  \<^verbatim>\<open>PMID\<close> is the body; sets are iterated in insertion order.
\<close>

definition example_world :: world where
  "example_world =
     \<lparr>esearch_reply = (\<lambda>log term start stop.
        Ok (JObj [(''esearchresult'',
                   JObj [(''idlist'', JArr [JStr ''1'', JStr ''2'', JStr ''2'', JStr ''3''])])])),
      efetch_reply = (\<lambda>log ids. Ok ids),
      pmc_reply = (\<lambda>log url. RequestException []),
      ET_fromstring = (\<lambda>body.
        if body = ''2'' then None else Some (node ''PubmedArticleSet'' [minimal_record body])),
      article_paragraphs = (\<lambda>content. None),
      set_iteration = (\<lambda>members. members)\<rparr>"

text \<open>The same world with a search reply whose body is a JSON array.\<close>

definition array_reply_world :: world where
  "array_reply_world = example_world\<lparr>esearch_reply := (\<lambda>log term start stop. Ok (JArr []))\<rparr>"

text \<open>The same world with a search service that cannot be reached.\<close>

definition offline_world :: world where
  "offline_world =
     example_world\<lparr>esearch_reply := (\<lambda>log term start stop. RequestException ''timed out'')\<rparr>"

text \<open>
  The example world with an XML parser that reads the body \<^verbatim>\<open>1,2\<close> as a set of
  two records, one per identifier, and any other body as one record.
\<close>

definition pair_world :: world where
  "pair_world =
     example_world\<lparr>ET_fromstring := (\<lambda>body.
        if body = ''1,2''
        then Some (node ''PubmedArticleSet'' [minimal_record ''1'', minimal_record ''2''])
        else Some (node ''PubmedArticleSet'' [minimal_record body]))\<rparr>"

text \<open>The example world with an XML parser that reads every body as two records.\<close>

definition generous_world :: world where
  "generous_world =
     example_world\<lparr>ET_fromstring := (\<lambda>body.
        Some (node ''PubmedArticleSet'' [minimal_record body, minimal_record body]))\<rparr>"

definition example_request :: "int \<Rightarrow> int \<Rightarrow> search_request" where
  "example_request lim csize =
     \<lparr>query = ''root'', start_date = ''1900/01/01'', stop_date = ''3000/01/01'', limit = lim,
      chunk_size = csize, exclude_preprints = True, free_full_text_only = False,
      fetch_full_text = False\<rparr>"

definition example_search :: event where
  "example_search = ESearch ''(root) NOT preprint[pt]'' ''1900/01/01'' ''3000/01/01''"

section \<open>The scraper's outcomes\<close>

lemma splitlines_from_empty: "splitlines_from cur s = [] \<longleftrightarrow> cur = [] \<and> s = []"
  by (induction cur s rule: splitlines_from.induct) (simp_all)

lemma splitlines_empty: "splitlines s = [] \<longleftrightarrow> s = []"
  by (simp add: splitlines_def splitlines_from_empty)

text \<open>
  Every call of the scraper ends in one of five ways: the four results of the
  specification, all of them non-empty strings, or an \<^verbatim>\<open>IndexError\<close>, which happens
  exactly for a \<^verbatim>\<open>RequestException\<close> whose message is the empty string.
\<close>

lemma scrape_full_text_outcomes:
  "fst (scrape_full_text w log pmc) = Inl IndexError \<and>
     pmc_reply w log (PMC_ARTICLE_URL @ pmc @ ''/'') = RequestException []
   \<or> (\<exists>t. fst (scrape_full_text w log pmc) = Inr t \<and> t \<noteq> [] \<and>
          (t = ''FULL_TEXT_CONTAINER_NOT_FOUND'' \<or> t = ''FULL_TEXT_EMPTY''
           \<or> prefix ''SCRAPING_FAILED: '' t
           \<or> (\<exists>content ps. pmc_reply w log (PMC_ARTICLE_URL @ pmc @ ''/'') = Ok content
                 \<and> article_paragraphs w content = Some ps \<and> t = py_join '' '' ps)))"
proof (cases "pmc_reply w log (PMC_ARTICLE_URL @ pmc @ ''/'')")
  case (RequestException msg)
  show ?thesis
  proof (cases "splitlines msg")
    case Nil
    then have "msg = []" by (simp add: splitlines_empty)
    with RequestException Nil show ?thesis
      by (simp add: scrape_full_text_def py_first_def py_bind_def)
  next
    case (Cons l ls)
    with RequestException show ?thesis
      by (simp add: scrape_full_text_def py_first_def py_bind_def)
  qed
next
  case (Ok content)
  then show ?thesis
    by (cases "article_paragraphs w content") (auto simp: scrape_full_text_def Let_def)
qed

text \<open>
  Claim C1 says that \<^verbatim>\<open>scrape_full_text\<close> returns one of its four results for any
  response body and any transport error, also one whose message is empty, and
  never ends with an unhandled exception.  For a transport error with the empty
  message the handler's \<^verbatim>\<open>str(e).splitlines()[0]\<close> indexes the empty list: the call
  ends with \<^verbatim>\<open>IndexError\<close>, whatever the world otherwise does, after the one request
  to the article page.
\<close>

theorem scrape_full_text_empty_message:
  "scrape_full_text (w\<lparr>pmc_reply := \<lambda>log url. RequestException []\<rparr>) log pmc
     = (Inl IndexError, log @ [PmcGet (PMC_ARTICLE_URL @ pmc @ ''/'')])"
  by (simp add: scrape_full_text_def splitlines_def py_first_def py_bind_def)

section \<open>The analyzer's prompt\<close>

text \<open>
  Claim C3 says that an article contributes its full text exactly when full text
  was attempted and is not empty, and its abstract otherwise, so that a failure or
  empty sentinel in \<^verbatim>\<open>full_text\<close> makes the article contribute its abstract.  The
  program only looks for \<^verbatim>\<open>NOT_ATTEMPTED\<close>: the three sentinels the scraper returns
  are passed on as the article's text, whatever its abstract is.
\<close>

theorem text_content_failure_sentinel:
  "text_content (a\<lparr>full_text := Some ''FULL_TEXT_EMPTY''\<rparr>) = ''FULL_TEXT_EMPTY'' \<and>
   text_content (a\<lparr>full_text := Some ''FULL_TEXT_CONTAINER_NOT_FOUND''\<rparr>)
     = ''FULL_TEXT_CONTAINER_NOT_FOUND'' \<and>
   text_content (a\<lparr>full_text := Some ''SCRAPING_FAILED: timeout''\<rparr>)
     = ''SCRAPING_FAILED: timeout''"
  by (simp add: text_content_def)

lemma article_texts_loop_eq:
  "article_texts_loop n as acc = acc @ map (\<lambda>(i, a). article_block i a) (enumerate n as)"
  by (induction as arbitrary: n acc) auto

text \<open>
  Claim C9: the assembled prompt is at most 30000 characters long; the prompt is
  built from one block per article, in order, and the text an article contributes
  to its block is the first 3000 characters of its text content, cut before the
  blocks are joined.
\<close>

theorem analyze_prompt_bounds:
  "length (full_prompt articles) \<le> 30000 \<and>
   article_texts_loop 0 articles [] = map (\<lambda>(i, a). article_block i a) (enumerate 0 articles) \<and>
   (\<exists>t. article_block idx a = block_label idx a @ t @ ''...'' @ [LF]
        \<and> length t \<le> 3000 \<and> t = take 3000 (text_content a))"
proof -
  have "length (full_prompt articles) \<le> 30000"
    by (simp add: full_prompt_def)
  moreover have "article_texts_loop 0 articles []
      = map (\<lambda>(i, a). article_block i a) (enumerate 0 articles)"
    by (simp add: article_texts_loop_eq)
  moreover have "\<exists>t. article_block idx a = block_label idx a @ t @ ''...'' @ [LF]
        \<and> length t \<le> 3000 \<and> t = take 3000 (text_content a)"
    by (simp add: article_block_def)
  ultimately show ?thesis by blast
qed

section \<open>Whitespace in the parsed fields\<close>

lemma is_space_blank [simp]: "is_space (CHR '' '')"
  by (simp add: is_space_def code_point_def)

lemma single_spaced_Cons:
  "single_spaced (c # cs) \<longleftrightarrow> (cs = [] \<or> \<not> (is_space c \<and> is_space (hd cs))) \<and> single_spaced cs"
  by (cases cs) auto

lemma single_spaced_append:
  "single_spaced (a @ b) \<longleftrightarrow>
     single_spaced a \<and> single_spaced b \<and>
     (a = [] \<or> b = [] \<or> \<not> (is_space (last a) \<and> is_space (hd b)))"
proof (induction a rule: single_spaced.induct, goal_cases)
  case (1 c d cs)
  then show ?case by auto
next
  case 2
  then show ?case by simp
next
  case (3 c)
  then show ?case by (cases b) auto
qed

lemma re_sub_ws_Nil_iff: "re_sub_ws s = [] \<longleftrightarrow> s = []"
  by (cases s) auto

lemma hd_re_sub_ws:
  "s \<noteq> [] \<Longrightarrow> hd (re_sub_ws s) = (if is_space (hd s) then CHR '' '' else hd s)"
  by (cases s) auto

lemma only_plain_spaces_re_sub_ws: "only_plain_spaces (re_sub_ws s)"
  by (induction s rule: re_sub_ws.induct) (auto simp: only_plain_spaces_def)

lemma single_spaced_re_sub_ws: "single_spaced (re_sub_ws s)"
proof (induction s rule: re_sub_ws.induct)
  case 1
  then show ?case by simp
next
  case (2 c cs)
  show ?case
  proof (cases "is_space c")
    case True
    let ?r = "dropWhile is_space cs"
    have "re_sub_ws ?r = [] \<or> \<not> is_space (hd (re_sub_ws ?r))"
    proof (cases "?r = []")
      case True
      then show ?thesis by (simp only: re_sub_ws.simps simp_thms)
    next
      case False
      then have "\<not> is_space (hd ?r)" by (rule hd_dropWhile)
      then show ?thesis by (simp only: hd_re_sub_ws [OF False] if_False simp_thms)
    qed
    moreover have "single_spaced (re_sub_ws ?r)" using True 2 by simp
    ultimately have "single_spaced (CHR '' '' # re_sub_ws ?r)"
      by (simp only: single_spaced_Cons) blast
    with True show ?thesis by simp
  next
    case False
    with 2 show ?thesis by (auto simp: single_spaced_Cons)
  qed
qed

lemma last_dropWhile_eq: "dropWhile P xs \<noteq> [] \<Longrightarrow> last (dropWhile P xs) = last xs"
proof -
  assume ne: "dropWhile P xs \<noteq> []"
  have "last xs = last (takeWhile P xs @ dropWhile P xs)" by simp
  also have "\<dots> = last (dropWhile P xs)" using ne by (rule last_appendR)
  finally show ?thesis by simp
qed

lemma last_re_sub_ws:
  "s \<noteq> [] \<Longrightarrow> \<not> is_space (last s) \<Longrightarrow> \<not> is_space (last (re_sub_ws s))"
proof (induction s rule: re_sub_ws.induct)
  case 1
  then show ?case by simp
next
  case (2 c cs)
  show ?case
  proof (cases "is_space c")
    case True
    let ?r = "dropWhile is_space cs"
    have cs: "cs \<noteq> []" using True 2(4) by (cases cs) auto
    have r: "?r \<noteq> []"
    proof
      assume "?r = []"
      then have "\<forall>x\<in>set cs. is_space x" by (simp add: dropWhile_eq_Nil_conv)
      then have "is_space (last cs)" using cs by simp
      with 2(4) cs show False by simp
    qed
    have "last ?r = last cs" using r by (rule last_dropWhile_eq)
    then have "\<not> is_space (last ?r)" using 2(4) cs by simp
    then have "\<not> is_space (last (re_sub_ws ?r))" using 2(1) True r by simp
    with True r show ?thesis by (simp add: re_sub_ws_Nil_iff)
  next
    case False
    show ?thesis
    proof (cases cs)
      case Nil
      with False show ?thesis by simp
    next
      case (Cons d ds)
      with 2(2) [OF False] 2(4) False show ?thesis by (simp add: re_sub_ws_Nil_iff)
    qed
  qed
qed

lemma trimmed_py_strip: "trimmed (py_strip s)"
proof (cases "py_strip s = []")
  case True
  then show ?thesis by (simp add: trimmed_def)
next
  case False
  let ?t = "dropWhile is_space s"
  let ?u = "dropWhile is_space (rev ?t)"
  have u: "?u \<noteq> []" using False by (simp add: py_strip_def)
  have t: "?t \<noteq> []"
  proof
    assume e: "?t = []"
    have "?u = []" unfolding e by simp
    with u show False by (simp only:)
  qed
  have "\<not> is_space (hd ?u)" using u by (rule hd_dropWhile)
  then have l: "\<not> is_space (last (py_strip s))" using u by (simp add: py_strip_def last_rev)
  have "last ?u = last (rev ?t)" using u by (rule last_dropWhile_eq)
  then have "hd (py_strip s) = hd ?t" using u t by (simp add: py_strip_def hd_rev last_rev)
  moreover have "\<not> is_space (hd ?t)" using t by (rule hd_dropWhile)
  ultimately show ?thesis using l by (simp add: trimmed_def)
qed

lemma py_strip_trimmed: "trimmed s \<Longrightarrow> py_strip s = s"
proof (cases s)
  case Nil
  then show ?thesis by (simp add: py_strip_def)
next
  case (Cons c cs)
  assume "trimmed s"
  with Cons have h: "\<not> is_space c" and l: "\<not> is_space (last s)" by (auto simp: trimmed_def)
  have 1: "dropWhile is_space s = s" using Cons h by simp
  have "dropWhile is_space (rev s) = rev s" using l
    by (simp only: dropWhile_eq_self_iff hd_rev) simp
  with 1 show ?thesis by (simp add: py_strip_def)
qed

lemma ws_normalized_re_sub_ws_strip: "ws_normalized (re_sub_ws (py_strip t))"
proof -
  have "trimmed (re_sub_ws (py_strip t))"
  proof (cases "py_strip t = []")
    case True
    then show ?thesis by (simp add: trimmed_def)
  next
    case False
    with trimmed_py_strip [of t] have "\<not> is_space (hd (py_strip t))" "\<not> is_space (last (py_strip t))"
      by (auto simp: trimmed_def)
    with False show ?thesis
      by (simp add: trimmed_def hd_re_sub_ws last_re_sub_ws)
  qed
  then show ?thesis
    by (simp add: ws_normalized_def only_plain_spaces_re_sub_ws single_spaced_re_sub_ws)
qed

lemma ws_normalized_Nil [simp]: "ws_normalized []"
  by (simp add: ws_normalized_def only_plain_spaces_def trimmed_def)

lemma ws_normalized_get_text: "ws_normalized (get_text e p)"
  by (simp add: get_text_def ws_normalized_re_sub_ws_strip split: option.splits)


lemma ws_normalized_py_or:
  "ws_normalized a \<Longrightarrow> ws_normalized b \<Longrightarrow> ws_normalized (py_or a b)"
  by (simp add: py_or_def)

lemma ws_normalized_sep:
  assumes a: "ws_normalized a" "a \<noteq> []" and b: "ws_normalized b" "b \<noteq> []"
    and sep: "sep = '' '' \<or> sep = '', ''"
  shows "ws_normalized (a @ sep @ b)"
proof -
  from a have la: "\<not> is_space (last a)" by (simp add: ws_normalized_def trimmed_def)
  from a have ha: "\<not> is_space (hd a)" by (simp add: ws_normalized_def trimmed_def)
  from b have hb: "\<not> is_space (hd b)" by (simp add: ws_normalized_def trimmed_def)
  from b have lb: "\<not> is_space (last b)" by (simp add: ws_normalized_def trimmed_def)
  have comma: "\<not> is_space (CHR '','')" by (simp add: is_space_def code_point_def)
  have "single_spaced (sep @ b)"
  proof (cases "sep = '' ''")
    case True
    with b hb show ?thesis by (simp add: ws_normalized_def single_spaced_Cons)
  next
    case False
    with sep have "sep = '', ''" by simp
    with b hb comma show ?thesis by (simp add: ws_normalized_def single_spaced_Cons)
  qed
  moreover have "sep @ b \<noteq> []" using b(2) by simp
  moreover have "single_spaced a" using a by (simp add: ws_normalized_def)
  ultimately have ss: "single_spaced (a @ sep @ b)"
    using la a(2) by (simp only: single_spaced_append [of a "sep @ b"] simp_thms)
  have "only_plain_spaces (a @ sep @ b)"
    using a b sep comma by (auto simp: ws_normalized_def only_plain_spaces_def)
  moreover note ss
  moreover have "trimmed (a @ sep @ b)"
    using a(2) b(2) ha lb by (simp add: trimmed_def)
  ultimately show ?thesis by (simp add: ws_normalized_def)
qed

lemma ws_normalized_author_name:
  assumes f: "ws_normalized f" and l: "ws_normalized l" "l \<noteq> []"
  shows "ws_normalized (py_strip (f @ '' '' @ l)) \<and> py_strip (f @ '' '' @ l) \<noteq> []"
proof (cases "f = []")
  case True
  from l have t: "trimmed l" by (simp add: ws_normalized_def)
  with l(2) have "\<not> is_space (hd l)" by (simp add: trimmed_def)
  then have "dropWhile is_space ('' '' @ l) = l"
    using l(2) by (cases l) auto
  then have "py_strip ('' '' @ l) = py_strip l"
    by (simp add: py_strip_def dropWhile_eq_self_iff)
  also have "\<dots> = l" using t by (rule py_strip_trimmed)
  finally show ?thesis using True l by simp
next
  case False
  have n: "ws_normalized (f @ '' '' @ l)"
    using f False l by (intro ws_normalized_sep) simp_all
  then have "trimmed (f @ '' '' @ l)" by (simp add: ws_normalized_def)
  then have "py_strip (f @ '' '' @ l) = f @ '' '' @ l" by (rule py_strip_trimmed)
  with n False show ?thesis by simp
qed

lemma py_join_Nil_iff: "py_join sep (x # xs) = [] \<Longrightarrow> x = []"
  by (cases xs) auto

lemma ws_normalized_py_join:
  "\<forall>x\<in>set xs. ws_normalized x \<and> x \<noteq> [] \<Longrightarrow> ws_normalized (py_join '', '' xs)"
proof (induction "'', ''" xs rule: py_join.induct)
  case 1
  then show ?case by simp
next
  case (2 x)
  then show ?case by simp
next
  case (3 x y ys)
  then have r: "ws_normalized (py_join '', '' (y # ys))" by simp
  have "py_join '', '' (y # ys) \<noteq> []" using 3(2) py_join_Nil_iff [of "'', ''" y ys] by auto
  with r 3(2) have "ws_normalized (x @ '', '' @ py_join '', '' (y # ys))"
    by (intro ws_normalized_sep) simp_all
  then show ?case by simp
qed

lemma ws_normalized_authors_list:
  "\<forall>x\<in>set (authors_list e). ws_normalized x \<and> x \<noteq> []"
  using ws_normalized_author_name ws_normalized_get_text
  by (auto simp: authors_list_def author_name_def py_or_def)

lemma py_split_Nil: "dropWhile is_space s = [] \<Longrightarrow> py_split s = []"
  by (subst py_split.simps) (simp del: dropWhile_eq_Nil_conv)

lemma py_split_Cons:
  "dropWhile is_space s = c # cs \<Longrightarrow>
     py_split s = (c # takeWhile (\<lambda>x. \<not> is_space x) cs)
                    # py_split (dropWhile (\<lambda>x. \<not> is_space x) cs)"
  by (subst py_split.simps) simp

lemma py_split_words: "\<forall>p\<in>set (py_split s). is_word p"
proof (induction s rule: py_split.induct)
  case (1 s)
  show ?case
  proof (cases "dropWhile is_space s")
    case Nil
    then show ?thesis by (simp only: py_split_Nil) simp
  next
    case (Cons c cs)
    then have "\<not> is_space (hd (dropWhile is_space s))"
      using hd_dropWhile [of is_space s] by (simp del: dropWhile_eq_Nil_conv)
    with Cons have c: "\<not> is_space c" by simp
    have "is_word (c # takeWhile (\<lambda>x. \<not> is_space x) cs)"
      using c by (auto simp: is_word_def list_all_iff dest: set_takeWhileD)
    with 1 [OF Cons] show ?thesis by (simp add: py_split_Cons [OF Cons])
  qed
qed

lemma ws_normalized_word: "is_word p \<Longrightarrow> ws_normalized p"
proof -
  assume w: "is_word p"
  then have ns: "\<forall>c\<in>set p. \<not> is_space c" and ne: "p \<noteq> []" by (auto simp: is_word_def list_all_iff)
  have "single_spaced p" using ns by (induction p rule: single_spaced.induct) auto
  moreover have "only_plain_spaces p" using ns by (simp add: only_plain_spaces_def list_all_iff)
  moreover have "trimmed p" using ns ne by (simp add: trimmed_def)
  ultimately show ?thesis by (simp add: ws_normalized_def)
qed

lemma ws_normalized_first_author_display: "ws_normalized (first_author_display al)"
proof (cases al)
  case Nil
  then show ?thesis
    by (simp add: first_author_display_def ws_normalized_def only_plain_spaces_def
        trimmed_def is_space_def code_point_def)
next
  case (Cons a as)
  let ?parts = "py_split a"
  have words: "\<forall>p\<in>set ?parts. is_word p" by (rule py_split_words)
  consider (many) "length ?parts > 1 \<and> hd ?parts \<noteq> []"
    | (one) "\<not> (length ?parts > 1 \<and> hd ?parts \<noteq> [])" "length ?parts = 1"
    | (none) "\<not> (length ?parts > 1 \<and> hd ?parts \<noteq> [])" "length ?parts \<noteq> 1"
    by blast
  then show ?thesis
  proof cases
    case many
    then have ne: "?parts \<noteq> []" by auto
    then have l: "is_word (last ?parts)" and h: "is_word (hd ?parts)"
      using words by simp_all
    from h have "\<not> is_space (hd (hd ?parts))"
      by (cases "hd ?parts") (auto simp: is_word_def)
    then have i: "is_word ([hd (hd ?parts)] @ ''.'')"
      by (simp add: is_word_def is_space_def code_point_def)
    have "ws_normalized (last ?parts @ '', '' @ ([hd (hd ?parts)] @ ''.''))"
      using l i by (intro ws_normalized_sep ws_normalized_word) (simp_all add: is_word_def)
    with Cons many show ?thesis by (simp add: first_author_display_def Let_def)
  next
    case one
    then have "?parts \<noteq> []" by auto
    then have "is_word (hd ?parts)" using words by simp
    with Cons one show ?thesis
      by (simp add: first_author_display_def Let_def ws_normalized_word)
  next
    case none
    have "ws_normalized ''NO_AUTHOR''"
      by (simp add: ws_normalized_def only_plain_spaces_def trimmed_def is_space_def
          code_point_def)
    moreover have "first_author_display al = ''NO_AUTHOR''"
      using Cons none by (auto simp: first_author_display_def Let_def)
    ultimately show ?thesis by simp
  qed
qed

lemma trimmed_py_or: "trimmed a \<Longrightarrow> trimmed b \<Longrightarrow> trimmed (py_or a b)"
  by (simp add: py_or_def)

lemma trimmed_abstract_of: "trimmed (abstract_of e)"
proof -
  have "trimmed ''NO_ABSTRACT''"
    by (simp add: trimmed_def is_space_def code_point_def)
  then show ?thesis
    unfolding abstract_of_def by (intro trimmed_py_or trimmed_py_strip)
qed

lemma ws_normalized_year_of: "year_of e = Inr y \<Longrightarrow> ws_normalized y"
proof -
  assume y: "year_of e = Inr y"
  have lit: "ws_normalized ''NO_YEAR''"
    by (simp add: ws_normalized_def only_plain_spaces_def trimmed_def is_space_def code_point_def)
  from y show ?thesis
    by (auto simp: year_of_def lit ws_normalized_get_text ws_normalized_py_or
        split: option.splits)
qed

text \<open>
  Claim C2, amended: in every article the parser returns, the identifier, the title,
  the author list, the first-author display, the journal and the year are
  whitespace-normalised; the abstract has no whitespace at either end (runs of
  whitespace inside it are kept); the PMC identifier is the text of the
  \<^verbatim>\<open>ArticleId\<close> element as it stands.
\<close>

theorem parse_article_xml_normalized_fields:
  assumes "parse_article_xml e = Inr (Some a)"
  shows "ws_normalized (pmid a) \<and> ws_normalized (title a) \<and> ws_normalized (authors a)
       \<and> ws_normalized (first_author a) \<and> (\<exists>j. journal a = Some j \<and> ws_normalized j)
       \<and> ws_normalized (year a) \<and> trimmed (abstract a) \<and> pmcid a = pmcid_of e"
proof -
  have lits: "ws_normalized ''NO_TITLE''" "ws_normalized ''NO_AUTHORS''" "ws_normalized ''N/A''"
    by (simp_all add: ws_normalized_def only_plain_spaces_def trimmed_def is_space_def
        code_point_def)
  from assms obtain y where y: "year_of e = Inr y"
    and a: "a = \<lparr>pmid = get_text e [Self, Child ''MedlineCitation'', Child ''PMID''],
        title = py_or (get_text e [Self, Child ''MedlineCitation'', Child ''Article'',
                                   Child ''ArticleTitle'']) ''NO_TITLE'',
        first_author = first_author_display (authors_list e),
        authors = py_or (py_join '', '' (authors_list e)) ''NO_AUTHORS'',
        year = y,
        journal = Some (py_or (get_text e [Self, Child ''MedlineCitation'', Child ''Article'',
                                           Child ''Journal'', Child ''Title'']) ''N/A''),
        abstract = abstract_of e, pmcid = pmcid_of e,
        full_text = Some ''NOT_ATTEMPTED''\<rparr>"
    by (auto simp: parse_article_xml_def parse_article_try_def py_bind_def Let_def
        split: if_splits sum.splits)
  have "ws_normalized (py_join '', '' (authors_list e))"
    using ws_normalized_authors_list by (rule ws_normalized_py_join)
  then have "ws_normalized (authors a)" by (simp add: a lits ws_normalized_py_or)
  moreover have "ws_normalized (year a)" using y by (simp add: a ws_normalized_year_of)
  moreover have "trimmed (abstract a)" by (simp add: a trimmed_abstract_of)
  moreover have "ws_normalized (pmid a)" "ws_normalized (title a)"
    "\<exists>j. journal a = Some j \<and> ws_normalized j" "ws_normalized (first_author a)"
    by (simp_all add: a lits ws_normalized_py_or ws_normalized_get_text
        ws_normalized_first_author_display)
  ultimately show ?thesis by (simp add: a)
qed


lemma parse_example_article: "parse_article_xml example_article_xml = Inr (Some example_article)"
  by code_simp

text \<open>
  The amended claim C2 at the example record: the parser returns the example
  article, whose title, authors, journal and identifier lost their extra whitespace.
\<close>

theorem parse_article_xml_normalized_fields_witness:
  "parse_article_xml example_article_xml = Inr (Some example_article)
   \<and> ws_normalized (pmid example_article) \<and> ws_normalized (title example_article)
   \<and> ws_normalized (authors example_article) \<and> ws_normalized (first_author example_article)
   \<and> (\<exists>j. journal example_article = Some j \<and> ws_normalized j)
   \<and> ws_normalized (year example_article) \<and> trimmed (abstract example_article)
   \<and> pmcid example_article = pmcid_of example_article_xml"
  using parse_article_xml_normalized_fields [OF parse_example_article] parse_example_article
  by simp

text \<open>
  Claim C2 as stated fails at the example record: its abstract keeps the two
  adjacent spaces of the \<^verbatim>\<open>AbstractText\<close> element, and its PMC identifier keeps
  the spaces around \<^verbatim>\<open>PMC7\<close>.
\<close>

theorem parse_article_xml_abstract_not_normalized:
  "parse_article_xml example_article_xml = Inr (Some example_article)
   \<and> abstract example_article = ''a  b'' \<and> \<not> ws_normalized (abstract example_article)
   \<and> pmcid example_article = Some '' PMC7 '' \<and> \<not> ws_normalized '' PMC7 ''"
proof -
  have "\<not> single_spaced ''a  b''" by simp
  moreover have "\<not> trimmed '' PMC7 ''" by (simp add: trimmed_def)
  ultimately show ?thesis
    using parse_example_article by (simp add: example_article_def ws_normalized_def)
qed

section \<open>Records the parser rejects\<close>

lemma all_space_strip: "list_all is_space t \<Longrightarrow> py_strip t = []"
proof -
  assume "list_all is_space t"
  then have "dropWhile is_space t = []" by (simp add: list_all_iff)
  then show ?thesis by (simp only: py_strip_def) simp
qed

lemma pmid_missing_get_text:
  "pmid_missing e \<Longrightarrow> get_text e [Self, Child ''MedlineCitation'', Child ''PMID''] = []"
  by (auto simp: pmid_missing_def get_text_def all_space_strip split: option.splits)

text \<open>
  Claim C5: a record whose identifier is absent or empty is rejected: the parser
  returns no record, whatever else the record holds.
\<close>

theorem parse_article_xml_requires_pmid:
  "pmid_missing e \<Longrightarrow> parse_article_xml e = Inr None"
  by (simp add: parse_article_xml_def parse_article_try_def pmid_missing_get_text)

lemma example_without_pmid_missing: "pmid_missing example_without_pmid"
  by code_simp

lemma example_without_pmid_title:
  "get_text example_without_pmid
     [Self, Child ''MedlineCitation'', Child ''Article'', Child ''ArticleTitle''] = ''Root growth''"
  by code_simp

text \<open>
  Claim C5 at the example record that has a title, a journal and a date but no
  \<^verbatim>\<open>PMID\<close>.
\<close>

theorem parse_article_xml_requires_pmid_witness:
  "pmid_missing example_without_pmid
   \<and> get_text example_without_pmid
       [Self, Child ''MedlineCitation'', Child ''Article'', Child ''ArticleTitle''] = ''Root growth''
   \<and> parse_article_xml example_without_pmid = Inr None"
  using parse_article_xml_requires_pmid [OF example_without_pmid_missing]
    example_without_pmid_missing example_without_pmid_title
  by simp

text \<open>
  Claim C4: the parser never raises: it returns no record or an article; an
  exception inside its \<^verbatim>\<open>try\<close> block makes it return no record, and the loop over
  the records of a batch then goes on with the remaining records, its list of
  articles and its log unchanged.
\<close>

theorem parse_article_xml_never_raises:
  "(parse_article_xml e = Inr None \<or> (\<exists>a. parse_article_xml e = Inr (Some a)))
   \<and> (\<forall>err. parse_article_try e = Inl err \<longrightarrow>
         parse_article_xml e = Inr None
         \<and> record_loop w req (e # rest) articles_data log
             = record_loop w req rest articles_data log)"
proof -
  have "parse_article_xml e = Inr None \<or> (\<exists>a. parse_article_xml e = Inr (Some a))"
    by (cases "parse_article_try e") (auto simp: parse_article_xml_def)
  moreover have "parse_article_xml e = Inr None
      \<and> record_loop w req (e # rest) articles_data log = record_loop w req rest articles_data log"
    if "parse_article_try e = Inl err" for err
    using that by (simp add: parse_article_xml_def)
  ultimately show ?thesis by blast
qed

lemma example_without_pubdate_raises: "parse_article_try example_without_pubdate = Inl AttributeError"
  by code_simp

text \<open>
  Claim C4 at a record without \<^verbatim>\<open>PubDate\<close>, where the \<^verbatim>\<open>try\<close> block raises
  \<^verbatim>\<open>AttributeError\<close>: the record is skipped and the record after it is parsed.
\<close>

theorem parse_article_xml_never_raises_witness:
  "parse_article_try example_without_pubdate = Inl AttributeError
   \<and> parse_article_xml example_without_pubdate = Inr None
   \<and> record_loop example_world (example_request 100 50)
        [example_without_pubdate, minimal_record ''3''] [] []
      = record_loop example_world (example_request 100 50) [minimal_record ''3''] [] []
   \<and> record_loop example_world (example_request 100 50) [minimal_record ''3''] [] []
      = (Inr [minimal_article ''3''], [])"
proof -
  have "record_loop example_world (example_request 100 50) [minimal_record ''3''] [] []
      = (Inr [minimal_article ''3''], [])"
    by code_simp
  then show ?thesis
    using parse_article_xml_never_raises [of example_without_pubdate example_world
        "example_request 100 50" "[minimal_record ''3'']" "[]" "[]"]
      example_without_pubdate_raises
    by simp
qed


section \<open>Set semantics of the search\<close>

lemma py_set_add_members:
  "hash_key ` set (py_set_add s x) = insert (hash_key x) (hash_key ` set s)"
  by (auto simp: py_set_add_def)

lemma py_set_add_distinct:
  "distinct (map hash_key s) \<Longrightarrow> distinct (map hash_key (py_set_add s x))"
  by (auto simp: py_set_add_def)

lemma py_set_add_subset: "set (py_set_add s x) \<subseteq> insert x (set s)"
  by (auto simp: py_set_add_def)

lemma foldl_py_set_add:
  "distinct (map hash_key acc) \<Longrightarrow>
     distinct (map hash_key (foldl py_set_add acc xs))
     \<and> hash_key ` set (foldl py_set_add acc xs) = hash_key ` (set acc \<union> set xs)
     \<and> set (foldl py_set_add acc xs) \<subseteq> set acc \<union> set xs"
proof (induction xs arbitrary: acc)
  case Nil
  then show ?case by simp
next
  case (Cons x xs)
  from Cons.prems have "distinct (map hash_key (py_set_add acc x))"
    by (rule py_set_add_distinct)
  from Cons.IH [OF this] show ?case
    using py_set_add_members [of acc x] py_set_add_subset [of acc x] by auto
qed

lemma py_set_members:
  "list_all hashable xs \<Longrightarrow>
     \<exists>s. py_set xs = Inr s \<and> distinct (map hash_key s)
        \<and> hash_key ` set s = hash_key ` set xs \<and> set s \<subseteq> set xs"
  using foldl_py_set_add [of "[]" xs] by (simp add: py_set_def)

lemma py_set_distinct: "py_set xs = Inr s \<Longrightarrow> distinct (map hash_key s)"
  using foldl_py_set_add [of "[]" xs] by (auto simp: py_set_def split: if_splits)

lemma search_pmids_log:
  "snd (search_pmids w log q start stop excl fft)
     = log @ [ESearch (search_term q excl fft) start stop]"
  by (simp add: search_pmids_def Let_def)

lemma search_pmids_returned_distinct:
  "fst (search_pmids w log q start stop excl fft) = Inr s \<Longrightarrow> distinct (map hash_key s)"
proof (cases "esearch_reply w log (search_term q excl fft) start stop")
  case (RequestException msg)
  assume "fst (search_pmids w log q start stop excl fft) = Inr s"
  with RequestException show ?thesis by (simp add: search_pmids_def)
next
  case (Ok data)
  assume "fst (search_pmids w log q start stop excl fft) = Inr s"
  with Ok obtain xs where "py_set xs = Inr s"
    by (auto simp: search_pmids_def py_bind_def split: sum.splits)
  then show ?thesis by (rule py_set_distinct)
qed

lemma search_pmids_listed:
  assumes "listed_ids (esearch_reply w log (search_term q excl fft) start stop) = Some ids"
  shows "\<exists>s. fst (search_pmids w log q start stop excl fft) = Inr s
           \<and> hash_key ` set s = hash_key ` set ids \<and> set s \<subseteq> set ids"
proof (cases "esearch_reply w log (search_term q excl fft) start stop")
  case (RequestException msg)
  with assms show ?thesis by (simp add: search_pmids_def listed_ids_def)
next
  case (Ok data)
  with assms obtain items where data: "data = JObj items"
    by (cases data) (simp_all add: listed_ids_def)
  show ?thesis
  proof (cases "map_of items ''esearchresult''")
    case None
    with Ok data assms show ?thesis
      by (simp add: search_pmids_def listed_ids_def dict_get_def py_bind_def py_len_def
          py_iter_def py_set_def)
  next
    case (Some res)
    with Ok data assms obtain ritems where res: "res = JObj ritems"
      by (cases res) (simp_all add: listed_ids_def)
    show ?thesis
    proof (cases "map_of ritems ''idlist''")
      case None
      with Ok data Some res assms show ?thesis
        by (simp add: search_pmids_def listed_ids_def dict_get_def py_bind_def py_len_def
            py_iter_def py_set_def)
    next
      case (Some idl)
      with Ok data \<open>map_of items ''esearchresult'' = Some res\<close> res assms
      have l: "listed_ids (Ok (JObj [(''esearchresult'', JObj [(''idlist'', idl)])])) = Some ids"
        by (simp add: listed_ids_def)
      then have "(\<exists>n. py_len idl = Inr n) \<and> py_iter idl = Inr ids \<and> list_all hashable ids"
        by (cases idl)
          (auto simp: listed_ids_def py_len_def py_iter_def hashable_def list_all_iff
            split: if_splits)
      then obtain n where n: "py_len idl = Inr n" and it: "py_iter idl = Inr ids"
        and h: "list_all hashable ids" by blast
      from py_set_members [OF h] obtain s where "py_set ids = Inr s"
        "hash_key ` set s = hash_key ` set ids" "set s \<subseteq> set ids"
        by blast
      with Ok data \<open>map_of items ''esearchresult'' = Some res\<close> res Some n it show ?thesis
        by (simp add: search_pmids_def dict_get_def py_bind_def)
    qed
  qed
qed

text \<open>
  The replies for which \<open>listed_ids\<close> is \<open>None\<close> are those the program does not
  read: there \<^verbatim>\<open>search_pmids\<close> ends with an exception that is no
  \<^verbatim>\<open>RequestException\<close>, as for a body that is a JSON array.
\<close>

lemma search_pmids_unlisted_raises:
  assumes "listed_ids (esearch_reply w log (search_term q excl fft) start stop) = None"
  shows "\<exists>err. fst (search_pmids w log q start stop excl fft) = Inl err"
proof (cases "esearch_reply w log (search_term q excl fft) start stop")
  case (RequestException msg)
  with assms show ?thesis by (simp add: listed_ids_def)
next
  case (Ok data)
  show ?thesis
  proof (cases "\<exists>items. data = JObj items")
    case False
    with Ok show ?thesis
      by (cases data) (simp_all add: search_pmids_def dict_get_def py_bind_def)
  next
    case True
    then obtain items where data: "data = JObj items" by blast
    from Ok data assms obtain res where r: "map_of items ''esearchresult'' = Some res"
      by (cases "map_of items ''esearchresult''") (simp_all add: listed_ids_def)
    show ?thesis
    proof (cases "\<exists>ritems. res = JObj ritems")
      case False
      with Ok data r show ?thesis
        by (cases res) (simp_all add: search_pmids_def dict_get_def py_bind_def)
    next
      case True
      then obtain ritems where res: "res = JObj ritems" by blast
      from Ok data r res assms obtain idl where i: "map_of ritems ''idlist'' = Some idl"
        by (cases "map_of ritems ''idlist''") (simp_all add: listed_ids_def)
      from Ok data r res i assms
      have "listed_ids (Ok (JObj [(''esearchresult'', JObj [(''idlist'', idl)])])) = None"
        by (simp add: listed_ids_def)
      then have "(\<exists>err. py_len idl = Inl err)
          \<or> (\<exists>xs. py_len idl = Inr (length xs) \<and> py_iter idl = Inr xs \<and> py_set xs = Inl TypeError)"
        by (cases idl)
          (auto simp: listed_ids_def py_len_def py_iter_def py_set_def split: if_splits)
      with Ok data r res i show ?thesis
        by (auto simp: search_pmids_def dict_get_def py_bind_def)
    qed
  qed
qed

lemma search_pmids_array_body_raises:
  "search_pmids array_reply_world [] ''root'' ''1900/01/01'' ''3000/01/01'' True False
     = (Inl AttributeError, [example_search])"
  by code_simp

text \<open>
  Claim C7: whatever the reply of the search service, a collection that
  \<^verbatim>\<open>search_pmids\<close> returns has no two equal members; its members are the
  identifiers the reply lists, each once however often the reply lists it; and when
  the request fails with a \<^verbatim>\<open>RequestException\<close> the function does not raise but
  returns the empty set, which is also what it returns for a reply that lists
  nothing.
\<close>

theorem search_pmids_set_semantics:
  "(\<forall>s. fst (search_pmids w log q start stop excl fft) = Inr s
        \<longrightarrow> distinct (map hash_key s) \<and> distinct s)
   \<and> (\<forall>ids. listed_ids (esearch_reply w log (search_term q excl fft) start stop) = Some ids
        \<longrightarrow> (\<exists>s. search_pmids w log q start stop excl fft
                     = (Inr s, log @ [ESearch (search_term q excl fft) start stop])
                 \<and> hash_key ` set s = hash_key ` set ids \<and> set s \<subseteq> set ids
                 \<and> (ids = [] \<longrightarrow> s = [])))
   \<and> (\<forall>msg. esearch_reply w log (search_term q excl fft) start stop = RequestException msg
        \<longrightarrow> search_pmids w log q start stop excl fft
              = (Inr [], log @ [ESearch (search_term q excl fft) start stop]))"
proof -
  have returned: "distinct (map hash_key s) \<and> distinct s"
    if "fst (search_pmids w log q start stop excl fft) = Inr s" for s
  proof -
    from that have "distinct (map hash_key s)" by (rule search_pmids_returned_distinct)
    then show ?thesis by (simp add: distinct_map)
  qed
  have listed: "\<exists>s. search_pmids w log q start stop excl fft
                     = (Inr s, log @ [ESearch (search_term q excl fft) start stop])
                 \<and> hash_key ` set s = hash_key ` set ids \<and> set s \<subseteq> set ids
                 \<and> (ids = [] \<longrightarrow> s = [])"
    if "listed_ids (esearch_reply w log (search_term q excl fft) start stop) = Some ids" for ids
  proof -
    from search_pmids_listed [OF that] obtain s
      where s: "fst (search_pmids w log q start stop excl fft) = Inr s"
        "hash_key ` set s = hash_key ` set ids" "set s \<subseteq> set ids"
      by blast
    from s(1) have "search_pmids w log q start stop excl fft
        = (Inr s, log @ [ESearch (search_term q excl fft) start stop])"
      using search_pmids_log [of w log q start stop excl fft] by (simp add: prod_eq_iff)
    moreover have "ids = [] \<longrightarrow> s = []" using s(3) by auto
    ultimately show ?thesis using s by blast
  qed
  have failed: "search_pmids w log q start stop excl fft
              = (Inr [], log @ [ESearch (search_term q excl fft) start stop])"
    if "esearch_reply w log (search_term q excl fft) start stop = RequestException msg" for msg
    using that by (simp add: search_pmids_def)
  from returned listed failed show ?thesis by blast
qed

lemma example_listed:
  "listed_ids (esearch_reply example_world [] (search_term ''root'' True False)
      ''1900/01/01'' ''3000/01/01'') = Some [JStr ''1'', JStr ''2'', JStr ''2'', JStr ''3'']"
  by code_simp

lemma offline_reply:
  "esearch_reply offline_world [] (search_term ''root'' True False)
      ''1900/01/01'' ''3000/01/01'' = RequestException ''timed out''"
  by (simp add: offline_world_def example_world_def)

lemma example_search_term: "search_term ''root'' True False = ''(root) NOT preprint[pt]''"
  by (simp add: search_term_def)

text \<open>
  Claim C7 in the example world, whose reply lists 1, 2, 2, 3, and in the world
  whose search service cannot be reached.
\<close>

theorem search_pmids_set_semantics_witness:
  "search_pmids example_world [] ''root'' ''1900/01/01'' ''3000/01/01'' True False
     = (Inr [JStr ''1'', JStr ''2'', JStr ''3''], [example_search])
   \<and> distinct [JStr ''1'', JStr ''2'', JStr ''3'']
   \<and> set [JStr ''1'', JStr ''2'', JStr ''3''] \<subseteq> set [JStr ''1'', JStr ''2'', JStr ''2'', JStr ''3'']
   \<and> search_pmids offline_world [] ''root'' ''1900/01/01'' ''3000/01/01'' True False
     = (Inr [], [example_search])"
proof -
  have run: "search_pmids example_world [] ''root'' ''1900/01/01'' ''3000/01/01'' True False
     = (Inr [JStr ''1'', JStr ''2'', JStr ''3''], [example_search])"
    by code_simp
  note online = search_pmids_set_semantics [of example_world "[]" "''root''"
      "''1900/01/01''" "''3000/01/01''" True False]
  note offline = search_pmids_set_semantics [of offline_world "[]" "''root''"
      "''1900/01/01''" "''3000/01/01''" True False]
  from online run have "distinct [JStr ''1'', JStr ''2'', JStr ''3'']" by simp
  moreover from online example_listed run
  have "set [JStr ''1'', JStr ''2'', JStr ''3''] \<subseteq> set [JStr ''1'', JStr ''2'', JStr ''2'', JStr ''3'']"
    by simp
  moreover from offline offline_reply
  have "search_pmids offline_world [] ''root'' ''1900/01/01'' ''3000/01/01'' True False
     = (Inr [], [example_search])"
    by (simp add: example_search_term example_search_def)
  ultimately show ?thesis using run by blast
qed

section \<open>The chunk size\<close>

text \<open>
  Claim C10: the endpoint does not check the chunk size.  With identifiers left
  after the cut to \<^verbatim>\<open>limit\<close>, a chunk size of 0 ends the endpoint with
  \<^verbatim>\<open>ValueError\<close>, and a negative chunk size makes it return the empty list; in both
  cases the search request is the only call that was made.
\<close>

theorem search_endpoint_chunk_size_not_enforced:
  assumes "search_pmids w [] (query req) (start_date req) (stop_date req)
             (exclude_preprints req) (free_full_text_only req) = (Inr all_pmids, log)"
    and "pmid_list_of w req all_pmids \<noteq> []"
  shows "(chunk_size req = 0 \<longrightarrow> search_endpoint w req = (Inl ValueError, log))
       \<and> (chunk_size req < 0 \<longrightarrow> search_endpoint w req = (Inr [], log))
       \<and> log = [ESearch (search_term (query req) (exclude_preprints req)
                    (free_full_text_only req)) (start_date req) (stop_date req)]"
proof -
  have "chunk_size req = 0 \<longrightarrow> search_endpoint w req = (Inl ValueError, log)"
    using assms by (simp add: search_endpoint_def py_range_def)
  moreover have "chunk_size req < 0 \<longrightarrow> search_endpoint w req = (Inr [], log)"
    using assms by (simp add: search_endpoint_def py_range_def range_len_def)
  moreover have "log = [ESearch (search_term (query req) (exclude_preprints req)
                    (free_full_text_only req)) (start_date req) (stop_date req)]"
    using assms(1) by (simp add: search_pmids_def Let_def)
  ultimately show ?thesis by blast
qed

lemma example_search_pmids:
  "search_pmids example_world [] (query (example_request lim csize))
     (start_date (example_request lim csize)) (stop_date (example_request lim csize))
     (exclude_preprints (example_request lim csize))
     (free_full_text_only (example_request lim csize))
   = (Inr [JStr ''1'', JStr ''2'', JStr ''3''], [example_search])"
  by (simp add: example_request_def) code_simp

lemma example_pmid_list:
  "pmid_list_of example_world (example_request 100 csize) [JStr ''1'', JStr ''2'', JStr ''3'']
     = [JStr ''1'', JStr ''2'', JStr ''3'']"
  by (simp add: pmid_list_of_def example_world_def example_request_def py_slice_def
      slice_index_def)

text \<open>Claim C10 in the example world, for the chunk sizes 0 and -3.\<close>

theorem search_endpoint_chunk_size_not_enforced_witness:
  "search_endpoint example_world (example_request 100 0) = (Inl ValueError, [example_search])
   \<and> search_endpoint example_world (example_request 100 (- 3)) = (Inr [], [example_search])"
proof -
  have zero: "pmid_list_of example_world (example_request 100 0)
      [JStr ''1'', JStr ''2'', JStr ''3''] \<noteq> []"
    by (simp add: example_pmid_list)
  have negative: "pmid_list_of example_world (example_request 100 (- 3))
      [JStr ''1'', JStr ''2'', JStr ''3''] \<noteq> []"
    by (simp add: example_pmid_list)
  from search_endpoint_chunk_size_not_enforced [OF example_search_pmids zero]
    search_endpoint_chunk_size_not_enforced [OF example_search_pmids negative]
  show ?thesis by (simp add: example_request_def)
qed

section \<open>Chunks that fail to parse\<close>














section \<open>The limit\<close>

lemma record_loop_length:
  "record_loop w req es acc log = (Inr r, l) \<Longrightarrow> length r \<le> length acc + length es"
proof (induction es arbitrary: acc log)
  case Nil
  then show ?case by simp
next
  case (Cons e es)
  from Cons.prems show ?case
    by (auto split: sum.splits option.splits prod.splits if_splits dest!: Cons.IH)
qed

lemma json_strs_length: "json_strs vs = Inr ss \<Longrightarrow> length ss = length vs"
proof (induction vs arbitrary: ss rule: json_strs.induct)
  case 1
  then show ?case by simp
next
  case (2 s vs)
  then show ?case by (auto simp: py_bind_def split: sum.splits)
qed simp_all

lemma json_strs_comma_free:
  "json_strs vs = Inr ss \<Longrightarrow> list_all comma_free vs \<Longrightarrow> \<forall>s\<in>set ss. CHR '','' \<notin> set s"
proof (induction vs arbitrary: ss)
  case Nil
  then show ?case by simp
next
  case (Cons v vs)
  from Cons.prems(1) obtain s ss' where v: "v = JStr s"
    and r: "json_strs vs = Inr ss'" and ss: "ss = s # ss'"
    by (cases v; cases "json_strs vs") (simp_all add: py_bind_def)
  from Cons.prems(2) v have "comma_free (JStr s)" and rest: "list_all comma_free vs"
    by simp_all
  then have s: "CHR '','' \<notin> set s"
    by (auto simp: comma_free_def list_all_iff)
  from Cons.IH [OF r rest] s ss show ?case by simp
qed

lemma asked_for_join:
  "ss \<noteq> [] \<Longrightarrow> \<forall>s\<in>set ss. CHR '','' \<notin> set s \<Longrightarrow> asked_for (py_join '','' ss) = length ss"
proof (induction "'',''" ss rule: py_join.induct)
  case 1
  then show ?case by simp
next
  case (2 x)
  then have "filter (\<lambda>c. c = CHR '','') x = []" by (auto simp: filter_empty_conv)
  then show ?case by (simp add: asked_for_def)
next
  case (3 x y ys)
  then have "filter (\<lambda>c. c = CHR '','') x = []" by (auto simp: filter_empty_conv)
  moreover from 3 have "asked_for (py_join '','' (y # ys)) = length (y # ys)" by simp
  ultimately show ?case by (simp add: asked_for_def)
qed

lemma py_slice_subset: "set (py_slice xs lo hi) \<subseteq> set xs"
proof -
  have "set (take n (drop m xs)) \<subseteq> set xs" for n m
    using set_take_subset [of n "drop m xs"] set_drop_subset [of m xs] by blast
  then show ?thesis by (simp add: py_slice_def Let_def)
qed

lemma chunk_records_bounded:
  assumes "one_record_per_id w"
    and "list_all comma_free chunk"
    and "get_details_for_pmids w log chunk = (Inr (Some body), log')"
    and "ET_fromstring w (safe_xml body) = Some root"
  shows "length (ET_findall root [Self, Child ''PubmedArticle'']) \<le> length chunk"
proof -
  from assms(3) have ne: "chunk \<noteq> []"
    by (auto simp: get_details_for_pmids_def split: if_splits)
  with assms(3) obtain ss where ss: "json_strs chunk = Inr ss"
    and reply: "efetch_reply w log (py_join '','' ss) = Ok body"
    by (auto simp: get_details_for_pmids_def Let_def split: sum.splits reply.splits)
  from ss have len: "length ss = length chunk" by (rule json_strs_length)
  with ne have "ss \<noteq> []" by auto
  moreover from ss assms(2) have "\<forall>s\<in>set ss. CHR '','' \<notin> set s"
    by (rule json_strs_comma_free)
  ultimately have "asked_for (py_join '','' ss) = length ss" by (rule asked_for_join)
  moreover from assms(1,4) reply
  have "length (ET_findall root [Self, Child ''PubmedArticle'']) \<le> asked_for (py_join '','' ss)"
    unfolding one_record_per_id_def by blast
  ultimately show ?thesis using len by simp
qed

lemma chunk_loop_length:
  assumes "one_record_per_id w" and "list_all comma_free pl"
  shows "chunk_loop w req pl starts acc log = (Inr r, l) \<Longrightarrow>
     length r \<le> length acc
        + sum_list (map (\<lambda>i. length (py_slice pl i (i + chunk_size req))) starts)"
proof (induction starts arbitrary: acc log)
  case Nil
  then show ?case by simp
next
  case (Cons i rest)
  let ?chunk = "py_slice pl i (i + chunk_size req)"
  obtain out log' where g: "get_details_for_pmids w log ?chunk = (out, log')"
    by (cases "get_details_for_pmids w log ?chunk")
  have skip: "length r \<le> length acc + (length ?chunk
        + sum_list (map (\<lambda>i. length (py_slice pl i (i + chunk_size req))) rest))"
    if "chunk_loop w req pl rest acc log' = (Inr r, l)"
    using Cons.IH [OF that] by simp
  show ?case
  proof (cases out)
    case (Inl err)
    with g Cons.prems show ?thesis by simp
  next
    case (Inr xml)
    show ?thesis
    proof (cases xml)
      case None
      with g Inr Cons.prems skip show ?thesis by simp
    next
      case (Some body)
      show ?thesis
      proof (cases "body = []")
        case True
        with g Inr Some Cons.prems skip show ?thesis by simp
      next
        case False
        show ?thesis
        proof (cases "ET_fromstring w (safe_xml body)")
          case None
          with g Inr Some False Cons.prems skip show ?thesis by simp
        next
          case (Some root)
          let ?els = "ET_findall root [Self, Child ''PubmedArticle'']"
          obtain out2 log2 where rl: "record_loop w req ?els acc log' = (out2, log2)"
            by (cases "record_loop w req ?els acc log'")
          show ?thesis
          proof (cases out2)
            case (Inl err)
            with g \<open>out = Inr xml\<close> \<open>xml = Some body\<close> False Some rl Cons.prems
            show ?thesis by simp
          next
            case (Inr acc')
            with g \<open>out = Inr xml\<close> \<open>xml = Some body\<close> False Some rl Cons.prems
            have "chunk_loop w req pl rest acc' log2 = (Inr r, l)" by simp
            from Cons.IH [OF this]
            have 1: "length r \<le> length acc'
                + sum_list (map (\<lambda>i. length (py_slice pl i (i + chunk_size req))) rest)" .
            from rl Inr have 2: "length acc' \<le> length acc + length ?els"
              by (simp add: record_loop_length)
            from g \<open>out = Inr xml\<close> \<open>xml = Some body\<close>
            have "get_details_for_pmids w log ?chunk = (Inr (Some body), log')" by simp
            moreover have "list_all comma_free ?chunk"
              using assms(2) py_slice_subset [of pl i "i + chunk_size req"]
              by (auto simp: list_all_iff)
            ultimately have "length ?els \<le> length ?chunk"
              using assms(1) Some by (intro chunk_records_bounded) simp_all
            with 1 2 show ?thesis by simp
          qed
        qed
      qed
    qed
  qed
qed

lemma slice_chunk_length:
  "length (py_slice pl (int k * int c) (int k * int c + int c))
     = min (length pl) ((k + 1) * c) - min (length pl) (k * c)"
proof -
  have a: "nat (int k * int c) = k * c" by (simp add: nat_mult_distrib)
  have "int k * int c + int c = int ((k + 1) * c)" by (simp add: algebra_simps)
  then have b: "nat (int k * int c + int c) = (k + 1) * c" by (simp only: nat_int)
  have "0 \<le> int (k * c)" "0 \<le> int ((k + 1) * c)" by simp_all
  then have c: "\<not> int k * int c < 0" "\<not> int k * int c + int c < 0"
    by (simp_all add: algebra_simps not_less)
  show ?thesis
    by (simp only: py_slice_def slice_index_def Let_def c if_False a b length_take length_drop)
qed

lemma chunk_lengths_sum:
  "sum_list (map (\<lambda>k. length (py_slice pl (int k * int c) (int k * int c + int c))) [0..<m])
     = min (length pl) (m * c)"
proof (induction m)
  case 0
  then show ?case by simp
next
  case (Suc m)
  have "min (length pl) (m * c) \<le> min (length pl) ((m + 1) * c)" by simp
  with Suc show ?case by (simp add: slice_chunk_length)
qed

text \<open>
  Claim C6, amended: for a request whose \<^verbatim>\<open>limit\<close> is not negative, at most
  \<^verbatim>\<open>limit\<close> identifiers are processed; and when no reply of the fetch service
  holds more records than identifiers were asked for (the identifiers holding no
  comma, so that a request tells how many were joined), the list the endpoint
  returns has at most \<^verbatim>\<open>limit\<close> articles.
\<close>

theorem search_endpoint_limit:
  assumes "0 \<le> limit req"
  shows "int (length (pmid_list_of w req all_pmids)) \<le> limit req
       \<and> (one_record_per_id w
            \<and> fst (search_pmids w [] (query req) (start_date req) (stop_date req)
                     (exclude_preprints req) (free_full_text_only req)) = Inr all_pmids
            \<and> list_all comma_free (pmid_list_of w req all_pmids)
          \<longrightarrow> (\<forall>articles log. search_endpoint w req = (Inr articles, log)
                 \<longrightarrow> int (length articles) \<le> limit req))"
proof -
  have ids: "int (length (pmid_list_of w req all_pmids)) \<le> limit req"
    using assms by (simp add: pmid_list_of_def py_slice_def slice_index_def)
  have "int (length articles) \<le> limit req"
    if bounded: "one_record_per_id w"
      and found: "fst (search_pmids w [] (query req) (start_date req) (stop_date req)
                     (exclude_preprints req) (free_full_text_only req)) = Inr all_pmids"
      and commas: "list_all comma_free (pmid_list_of w req all_pmids)"
      and run: "search_endpoint w req = (Inr articles, log)"
    for articles log
  proof -
    obtain log0 where s: "search_pmids w [] (query req) (start_date req) (stop_date req)
        (exclude_preprints req) (free_full_text_only req) = (Inr all_pmids, log0)"
      using found
      by (cases "search_pmids w [] (query req) (start_date req) (stop_date req)
        (exclude_preprints req) (free_full_text_only req)") simp
    let ?pl = "pmid_list_of w req all_pmids"
    show ?thesis
    proof (cases "?pl = [] \<or> chunk_size req < 0")
      case True
      with run s have "articles = []"
        by (auto simp: search_endpoint_def Let_def py_range_def range_len_def split: if_splits)
      with assms show ?thesis by simp
    next
      case False
      with run s have nz: "chunk_size req \<noteq> 0"
        by (auto simp: search_endpoint_def Let_def py_range_def)
      with False have "0 < chunk_size req" by simp
      then obtain c where c: "chunk_size req = int c" "0 < c"
        using zero_less_imp_eq_int by blast
      let ?m = "range_len 0 (int (length ?pl)) (chunk_size req)"
      from run s False nz
      have "chunk_loop w req ?pl (map (\<lambda>k. 0 + int k * chunk_size req) [0..<?m]) [] log0
          = (Inr articles, log)"
        by (simp add: search_endpoint_def Let_def py_range_def)
      from chunk_loop_length [OF bounded commas this]
      have "length articles \<le> sum_list (map (\<lambda>k. length (py_slice ?pl (int k * int c)
          (int k * int c + int c))) [0..<?m])"
        by (simp add: c comp_def)
      also have "\<dots> = min (length ?pl) (?m * c)" by (rule chunk_lengths_sum)
      also have "\<dots> \<le> length ?pl" by simp
      finally show ?thesis using ids by simp
    qed
  qed
  with ids show ?thesis by blast
qed

lemma asked_for_positive: "1 \<le> asked_for request"
  by (simp add: asked_for_def)

lemma asked_for_comma: "CHR '','' \<in> set request \<Longrightarrow> 2 \<le> asked_for request"
proof -
  assume "CHR '','' \<in> set request"
  then have "filter (\<lambda>c. c = CHR '','') request \<noteq> []" by (auto simp: filter_empty_conv)
  then have "1 \<le> length (filter (\<lambda>c. c = CHR '','') request)"
    by (cases "filter (\<lambda>c. c = CHR '','') request") simp_all
  then show ?thesis by (simp add: asked_for_def)
qed

lemma pair_one_record_per_id: "one_record_per_id pair_world"
proof -
  have one: "length (ET_findall (node ''PubmedArticleSet'' [minimal_record body])
      [Self, Child ''PubmedArticle'']) = 1" for body
    by (simp add: ET_findall_def node_def minimal_record_def)
  have two: "length (ET_findall (node ''PubmedArticleSet''
      [minimal_record ''1'', minimal_record ''2'']) [Self, Child ''PubmedArticle'']) = 2"
    by (simp add: ET_findall_def node_def minimal_record_def)
  have "2 \<le> asked_for request" if "safe_xml request = ''1,2''" for request
  proof -
    have "CHR '','' \<in> set (safe_xml request)" by (simp add: that)
    then have "CHR '','' \<in> set request" by (simp add: safe_xml_def)
    then show ?thesis by (rule asked_for_comma)
  qed
  with one two asked_for_positive show ?thesis
    by (auto simp: one_record_per_id_def pair_world_def example_world_def split: if_splits)
qed

lemma pair_found:
  "fst (search_pmids pair_world [] (query (example_request 2 2))
     (start_date (example_request 2 2)) (stop_date (example_request 2 2))
     (exclude_preprints (example_request 2 2)) (free_full_text_only (example_request 2 2)))
   = Inr [JStr ''1'', JStr ''2'', JStr ''3'']"
  by code_simp

lemma pair_pmid_list:
  "pmid_list_of pair_world (example_request 2 2) [JStr ''1'', JStr ''2'', JStr ''3'']
     = [JStr ''1'', JStr ''2'']"
  by code_simp

lemma pair_limited_run:
  "search_endpoint pair_world (example_request 2 2)
     = (Inr [minimal_article ''1'', minimal_article ''2''], [example_search, EFetch ''1,2''])"
  by code_simp

text \<open>
  The amended claim C6 for a limit of 2 and chunks of two identifiers, in a world
  whose fetch reply for the two identifiers holds two records: two of the three
  identifiers found are processed, and two articles are returned.
\<close>

theorem search_endpoint_limit_witness:
  "0 \<le> limit (example_request 2 2)
   \<and> pmid_list_of pair_world (example_request 2 2) [JStr ''1'', JStr ''2'', JStr ''3'']
       = [JStr ''1'', JStr ''2'']
   \<and> int (length (pmid_list_of pair_world (example_request 2 2)
         [JStr ''1'', JStr ''2'', JStr ''3''])) \<le> limit (example_request 2 2)
   \<and> one_record_per_id pair_world
   \<and> search_endpoint pair_world (example_request 2 2)
       = (Inr [minimal_article ''1'', minimal_article ''2''], [example_search, EFetch ''1,2''])
   \<and> int (length [minimal_article ''1'', minimal_article ''2''])
       \<le> limit (example_request 2 2)"
proof -
  have nonneg: "0 \<le> limit (example_request 2 2)" by (simp add: example_request_def)
  have commas: "list_all comma_free (pmid_list_of pair_world (example_request 2 2)
      [JStr ''1'', JStr ''2'', JStr ''3''])"
    by (simp add: pair_pmid_list comma_free_def)
  from search_endpoint_limit [OF nonneg, of pair_world "[JStr ''1'', JStr ''2'', JStr ''3'']"]
    pair_one_record_per_id pair_found commas pair_limited_run
  have "int (length (pmid_list_of pair_world (example_request 2 2)
         [JStr ''1'', JStr ''2'', JStr ''3''])) \<le> limit (example_request 2 2)
      \<and> int (length [minimal_article ''1'', minimal_article ''2''])
          \<le> limit (example_request 2 2)"
    by blast
  with nonneg pair_one_record_per_id pair_limited_run pair_pmid_list show ?thesis by simp
qed

text \<open>
  Claim C6 as stated fails in two ways.  For a negative limit: with
  \<^verbatim>\<open>limit = -1\<close> and three identifiers found, \<^verbatim>\<open>list(all_pmids)[:-1]\<close> keeps two of
  them, both are fetched, and neither the two identifiers nor the one article
  returned are at most \<^verbatim>\<open>-1\<close>.  For the returned list: with \<^verbatim>\<open>limit = 1\<close> and
  three identifiers found, one identifier is processed, and when the reply
  fetched for it holds two records the endpoint returns two articles.
\<close>

theorem search_endpoint_limit_exceeded:
  "limit (example_request (- 1) 50) < int (length [JStr ''1'', JStr ''2'', JStr ''3''])
   \<and> search_pmids example_world [] ''root'' ''1900/01/01'' ''3000/01/01'' True False
       = (Inr [JStr ''1'', JStr ''2'', JStr ''3''], [example_search])
   \<and> pmid_list_of example_world (example_request (- 1) 50) [JStr ''1'', JStr ''2'', JStr ''3'']
       = [JStr ''1'', JStr ''2'']
   \<and> search_endpoint example_world (example_request (- 1) 50)
       = (Inr [minimal_article ''1,2''], [example_search, EFetch ''1,2''])
   \<and> \<not> int (length [JStr ''1'', JStr ''2'']) \<le> limit (example_request (- 1) 50)
   \<and> \<not> int (length [minimal_article ''1,2'']) \<le> limit (example_request (- 1) 50)
   \<and> limit (example_request 1 1) < int (length [JStr ''1'', JStr ''2'', JStr ''3''])
   \<and> search_pmids generous_world [] ''root'' ''1900/01/01'' ''3000/01/01'' True False
       = (Inr [JStr ''1'', JStr ''2'', JStr ''3''], [example_search])
   \<and> pmid_list_of generous_world (example_request 1 1) [JStr ''1'', JStr ''2'', JStr ''3'']
       = [JStr ''1'']
   \<and> search_endpoint generous_world (example_request 1 1)
       = (Inr [minimal_article ''1'', minimal_article ''1''], [example_search, EFetch ''1''])
   \<and> \<not> int (length [minimal_article ''1'', minimal_article ''1''])
         \<le> limit (example_request 1 1)"
proof -
  have "search_pmids example_world [] ''root'' ''1900/01/01'' ''3000/01/01'' True False
       = (Inr [JStr ''1'', JStr ''2'', JStr ''3''], [example_search])"
    by code_simp
  moreover have "pmid_list_of example_world (example_request (- 1) 50)
      [JStr ''1'', JStr ''2'', JStr ''3''] = [JStr ''1'', JStr ''2'']"
    by code_simp
  moreover have "search_endpoint example_world (example_request (- 1) 50)
       = (Inr [minimal_article ''1,2''], [example_search, EFetch ''1,2''])"
    by code_simp
  moreover have "search_pmids generous_world [] ''root'' ''1900/01/01'' ''3000/01/01'' True False
       = (Inr [JStr ''1'', JStr ''2'', JStr ''3''], [example_search])"
    by code_simp
  moreover have "pmid_list_of generous_world (example_request 1 1)
      [JStr ''1'', JStr ''2'', JStr ''3''] = [JStr ''1'']"
    by code_simp
  moreover have "search_endpoint generous_world (example_request 1 1)
       = (Inr [minimal_article ''1'', minimal_article ''1''], [example_search, EFetch ''1''])"
    by code_simp
  ultimately show ?thesis by (simp add: example_request_def)
qed


end
